theory Spec2Isabelle
  imports
    Complex_Main
    "HOL-Library.AList"
    "HOL-Library.Sublist"
    "HOL-Library.Multiset"
    "HOL-Library.Char_ord"
    "HOL-Library.List_Lexorder"
begin

chapter \<open>The flight search pipeline: fetch, cache, normalise, post-filter\<close>

text \<open>
  A shallow embedding of \<^verbatim>\<open>flight_search/result_processor.py\<close> and
  \<^verbatim>\<open>flight_search/flight_fetcher.py\<close>, with the values of
  \<^verbatim>\<open>flight_search/config.py\<close> and the records of \<^verbatim>\<open>flight_search/models.py\<close>.

  Conventions of the embedding.
  \<^item> A Python \<^verbatim>\<open>str\<close> is a \<open>string\<close>; a character stands for a code point below 256.
    \<^verbatim>\<open>str.lower\<close> keeps a string within these characters and is defined on all of them.
    \<^verbatim>\<open>str.upper\<close> does not (it takes U+00B5 to U+039C and U+00FF to U+0178), so it is a
    function of the library that the model takes as given, like the digest.
  \<^item> A JSON object read with \<^verbatim>\<open>d.get(k, default)\<close> is a record; a field of type
    \<open>'a option\<close> is \<open>None\<close> when the key is absent. Where the source only tests the
    value for truth after \<^verbatim>\<open>get(k, "")\<close>, \<^verbatim>\<open>get(k, [])\<close> or \<^verbatim>\<open>get(k, 0)\<close>, the field carries the
    default itself (the empty string, the empty list, zero) for an absent key.
  \<^item> The leading underscore of a private Python name is dropped:
    \<^verbatim>\<open>_process_flight_group\<close> is \<open>process_flight_group\<close>.
  \<^item> Console output is not modelled.
\<close>

section \<open>Strings\<close>

text \<open>\<^verbatim>\<open>str(n)\<close> for an integer.\<close>

definition digit_char :: "nat \<Rightarrow> char" where
  "digit_char d = ''0123456789'' ! (d mod 10)"

fun str_nat :: "nat \<Rightarrow> string" where
  "str_nat n = (if n < 10 then [digit_char n] else str_nat (n div 10) @ [digit_char (n mod 10)])"

declare str_nat.simps [simp del]

definition str_int :: "int \<Rightarrow> string" where
  "str_int i = (if i < 0 then CHR ''-'' # str_nat (nat (- i)) else str_nat (nat i))"

text \<open>\<^verbatim>\<open>str(x)\<close> inside an f-string for an \<^verbatim>\<open>Optional[str]\<close>.\<close>

definition str_opt :: "string option \<Rightarrow> string" where
  "str_opt x = (case x of None \<Rightarrow> ''None'' | Some s \<Rightarrow> s)"

text \<open>\<^verbatim>\<open>sep.join(parts)\<close>.\<close>

fun join :: "string \<Rightarrow> string list \<Rightarrow> string" where
  "join sep [] = []"
| "join sep [x] = x"
| "join sep (x # y # ys) = x @ sep @ join sep (y # ys)"

text \<open>\<^verbatim>\<open>s.split(",")\<close>: always at least one part.\<close>

fun split_on :: "char \<Rightarrow> string \<Rightarrow> string list" where
  "split_on sep [] = [[]]"
| "split_on sep (c # cs) =
     (if c = sep then [] # split_on sep cs
      else (case split_on sep cs of
              [] \<Rightarrow> [[c]]
            | p # ps \<Rightarrow> (c # p) # ps))"

text \<open>\<^verbatim>\<open>s.strip()\<close>: the white space among the code points below 256.\<close>

definition is_space :: "char \<Rightarrow> bool" where
  "is_space c = (let n = (of_char c :: nat) in
     (9 \<le> n \<and> n \<le> 13) \<or> (28 \<le> n \<and> n \<le> 32) \<or> n = 133 \<or> n = 160)"

definition strip :: "string \<Rightarrow> string" where
  "strip s = rev (dropWhile is_space (rev (dropWhile is_space s)))"

text \<open>
  \<^verbatim>\<open>s.lower()\<close>. Among the code points below 256 the capital letters are A to Z and
  U+00C0 to U+00DE without the multiplication sign U+00D7; the small letter of each is
  32 code points further. Every other character stays as it is.
\<close>

definition ascii_uppercase :: string where
  "ascii_uppercase = ''ABCDEFGHIJKLMNOPQRSTUVWXYZ''"

definition ascii_lowercase :: string where
  "ascii_lowercase = ''abcdefghijklmnopqrstuvwxyz''"

definition latin1_uppercase :: string where
  "latin1_uppercase = [
      CHR 0xC0, CHR 0xC1, CHR 0xC2, CHR 0xC3, CHR 0xC4, CHR 0xC5, CHR 0xC6, CHR 0xC7,
      CHR 0xC8, CHR 0xC9, CHR 0xCA, CHR 0xCB, CHR 0xCC, CHR 0xCD, CHR 0xCE, CHR 0xCF,
      CHR 0xD0, CHR 0xD1, CHR 0xD2, CHR 0xD3, CHR 0xD4, CHR 0xD5, CHR 0xD6, CHR 0xD8,
      CHR 0xD9, CHR 0xDA, CHR 0xDB, CHR 0xDC, CHR 0xDD, CHR 0xDE]"

definition latin1_lowercase :: string where
  "latin1_lowercase = [
      CHR 0xE0, CHR 0xE1, CHR 0xE2, CHR 0xE3, CHR 0xE4, CHR 0xE5, CHR 0xE6, CHR 0xE7,
      CHR 0xE8, CHR 0xE9, CHR 0xEA, CHR 0xEB, CHR 0xEC, CHR 0xED, CHR 0xEE, CHR 0xEF,
      CHR 0xF0, CHR 0xF1, CHR 0xF2, CHR 0xF3, CHR 0xF4, CHR 0xF5, CHR 0xF6, CHR 0xF8,
      CHR 0xF9, CHR 0xFA, CHR 0xFB, CHR 0xFC, CHR 0xFD, CHR 0xFE]"

definition lower_char :: "char \<Rightarrow> char" where
  "lower_char c =
     (case map_of (zip (ascii_uppercase @ latin1_uppercase) (ascii_lowercase @ latin1_lowercase)) c of
        None \<Rightarrow> c
      | Some l \<Rightarrow> l)"

definition lower :: "string \<Rightarrow> string" where
  "lower s = map lower_char s"

text \<open>\<^verbatim>\<open>needle in haystack\<close> for two strings.\<close>

fun py_in :: "string \<Rightarrow> string \<Rightarrow> bool" where
  "py_in needle [] = (needle = [])"
| "py_in needle (h # hs) = (prefix needle (h # hs) \<or> py_in needle hs)"

text \<open>The truth value of an \<^verbatim>\<open>Optional[str]\<close>: neither \<^verbatim>\<open>None\<close> nor empty.\<close>

definition truthy :: "string option \<Rightarrow> bool" where
  "truthy x = (case x of None \<Rightarrow> False | Some s \<Rightarrow> s \<noteq> [])"

section \<open>The data model\<close>

subsection \<open>Raw upstream payloads\<close>

record airport =
  ap_id :: "string option"
  ap_time :: "string option"

record segment =
  seg_departure_airport :: "airport option"
  seg_arrival_airport :: "airport option"
  seg_airline :: string
  seg_flight_number :: string
  seg_airplane :: string
  seg_legroom :: string
  seg_extensions :: "string list"
  seg_travel_class :: "string option"

record layover =
  lv_duration :: int
  lv_id :: "string option"
  lv_name :: "string option"
  lv_overnight :: bool

text \<open>
  A flight group. The \<open>grp_return_\<close> fields are the keys that
  \<^verbatim>\<open>_enrich_return_legs\<close> attaches; \<open>grp_carbon_this_flight\<close> is
  \<^verbatim>\<open>group.get("carbon_emissions", {}).get("this_flight")\<close>.
\<close>

record flight_group =
  grp_flights :: "segment list"
  grp_layovers :: "layover list"
  grp_total_duration :: "int option"
  grp_price :: "int option"
  grp_carbon_this_flight :: "int option"
  grp_departure_token :: "string option"
  grp_airline_logo :: "string option"
  grp_extensions :: "string list"
  grp_return_flights :: "segment list"
  grp_return_layovers :: "layover list"
  grp_return_total_duration :: "int option"
  grp_return_airline_logo :: "string option"
  grp_return_extensions :: "string list"

text \<open>The response of the upstream search: an error field and the two group arrays.\<close>

record api_response =
  resp_error :: "string option"
  resp_best_flights :: "flight_group list"
  resp_other_flights :: "flight_group list"

record combo_info =
  ci_departure_id :: string
  ci_arrival_id :: string
  ci_outbound_date :: string
  ci_return_date :: "string option"

text \<open>
  The dictionaries that \<^verbatim>\<open>fetch_all\<close> returns and \<^verbatim>\<open>process_results\<close> reads:
  the empty dictionary, the fatal sentinel \<^verbatim>\<open>{"__fatal_error__": text}\<close>, an upstream
  response, or the unit \<^verbatim>\<open>{"__independent_one_way__": True, "combo": ..., "outbound_groups": ...,
  "return_groups": ...}\<close>.
\<close>

datatype raw_response =
  EmptyDict
| FatalError string
| ApiResponse api_response
| IndependentOneWay combo_info "flight_group list" "flight_group list"

subsection \<open>models.py\<close>

datatype filter_kind = at_least_one_leg_airline | arrival_before

datatype leg_scope = leg_outbound | leg_return | leg_any

record PostFilter =
  filter_type :: filter_kind
  pf_value :: string
  pf_leg :: leg_scope

text \<open>
  \<open>emissions_kg\<close> is carried as the gram figure \<open>g\<close> of the response; the source
  stores the float \<^verbatim>\<open>round(g / 1000, 1)\<close>, which no property below reads.
\<close>

record FlightResult =
  itinerary_type :: string
  origin :: string
  destination :: string
  airline :: string
  flight_numbers :: string
  depart_time :: string
  arrive_time :: string
  return_depart_time :: "string option"
  return_arrive_time :: "string option"
  stops :: int
  return_stops :: "int option"
  layover_info :: string
  return_layover_info :: "string option"
  total_duration_mins :: int
  return_total_duration_mins :: "int option"
  price :: int
  outbound_price :: "int option"
  return_price :: "int option"
  total_price :: "int option"
  currency :: string
  travel_class :: string
  emissions_kg :: "int option"
  airplane :: string
  return_airplane :: "string option"
  legroom :: string
  return_legroom :: "string option"
  extensions :: string
  return_flight_numbers :: "string option"
  return_airline :: "string option"
  return_extensions :: "string option"
  preferred :: bool

section \<open>result\_processor.py\<close>

definition fmt_duration :: "int \<Rightarrow> string" where
  "fmt_duration minutes =
     (let h = minutes div 60; m = minutes mod 60 in
      str_int h @ ''h '' @ (if m < 10 then CHR ''0'' # str_int m else str_int m) @ ''m'')"

text \<open>The loop \<^verbatim>\<open>for x in xs: if x and x not in acc: acc.append(x)\<close>.\<close>

definition add_new_nonempty :: "string list \<Rightarrow> string \<Rightarrow> string list" where
  "add_new_nonempty acc x = (if x \<noteq> [] \<and> x \<notin> set acc then acc @ [x] else acc)"

text \<open>The loop \<^verbatim>\<open>for ext in exts: if ext not in acc: acc.append(ext)\<close>.\<close>

definition add_new :: "string list \<Rightarrow> string \<Rightarrow> string list" where
  "add_new acc x = (if x \<notin> set acc then acc @ [x] else acc)"

definition airport_id :: "airport option \<Rightarrow> string" where
  "airport_id a = (case a of None \<Rightarrow> [] | Some p \<Rightarrow> (case ap_id p of None \<Rightarrow> [] | Some i \<Rightarrow> i))"

definition airport_time :: "airport option \<Rightarrow> string option" where
  "airport_time a = (case a of None \<Rightarrow> None | Some p \<Rightarrow> ap_time p)"

definition layover_code :: "layover \<Rightarrow> string" where
  "layover_code lv =
     (case lv_id lv of
        Some i \<Rightarrow> i
      | None \<Rightarrow> (case lv_name lv of Some n \<Rightarrow> n | None \<Rightarrow> ''?''))"

definition layover_part :: "layover \<Rightarrow> string" where
  "layover_part lv =
     fmt_duration (lv_duration lv) @ '' at '' @ layover_code lv
       @ (if lv_overnight lv then '' (overnight)'' else [])"

definition opt_join :: "string \<Rightarrow> string list \<Rightarrow> string option" where
  "opt_join sep xs = (if xs = [] then None else Some (join sep xs))"

definition process_flight_group :: "flight_group \<Rightarrow> FlightResult option" where
  "process_flight_group grp =
     (case grp_flights grp of
        [] \<Rightarrow> None
      | first # rest \<Rightarrow>
         (let segments = first # rest;
              lst = last segments;
              airlines = foldl add_new_nonempty [] (map seg_airline segments);
              fns = filter (\<lambda>fn. fn \<noteq> []) (map seg_flight_number segments);
              airplanes = foldl add_new_nonempty [] (map seg_airplane segments);
              legrooms = foldl add_new_nonempty [] (map seg_legroom segments);
              extensions_all = foldl add_new [] (concat (map seg_extensions segments));
              layover_parts = map layover_part (grp_layovers grp);
              return_segments = grp_return_flights grp;
              return_airlines = foldl add_new_nonempty [] (map seg_airline return_segments);
              return_fns = filter (\<lambda>fn. fn \<noteq> []) (map seg_flight_number return_segments);
              return_airplanes = foldl add_new_nonempty [] (map seg_airplane return_segments);
              return_legrooms = foldl add_new_nonempty [] (map seg_legroom return_segments);
              return_extensions_all = foldl add_new [] (concat (map seg_extensions return_segments));
              return_layover_parts = map layover_part (grp_return_layovers grp);
              outbound = grp_price grp
          in Some \<lparr>
               itinerary_type = ''round_trip'',
               origin = airport_id (seg_departure_airport first),
               destination = airport_id (seg_arrival_airport lst),
               airline = join '', '' airlines,
               flight_numbers = join '' / '' fns,
               depart_time = (case airport_time (seg_departure_airport first) of
                                None \<Rightarrow> [] | Some t \<Rightarrow> t),
               arrive_time = (case airport_time (seg_arrival_airport lst) of
                                None \<Rightarrow> [] | Some t \<Rightarrow> t),
               return_depart_time = (case return_segments of
                                       [] \<Rightarrow> None
                                     | rf # _ \<Rightarrow> airport_time (seg_departure_airport rf)),
               return_arrive_time = (case return_segments of
                                       [] \<Rightarrow> None
                                     | _ # _ \<Rightarrow> airport_time (seg_arrival_airport (last return_segments))),
               stops = int (length segments) - 1,
               return_stops = (if return_segments = [] then None
                               else Some (int (length return_segments) - 1)),
               layover_info = join ''; '' layover_parts,
               return_layover_info = opt_join ''; '' return_layover_parts,
               total_duration_mins = (case grp_total_duration grp of None \<Rightarrow> 0 | Some d \<Rightarrow> d),
               return_total_duration_mins = grp_return_total_duration grp,
               price = (case outbound of None \<Rightarrow> 0 | Some p \<Rightarrow> p),
               outbound_price = outbound,
               return_price = None,
               total_price = outbound,
               currency = ''USD'',
               travel_class = (case seg_travel_class first of None \<Rightarrow> ''Economy'' | Some c \<Rightarrow> c),
               emissions_kg = grp_carbon_this_flight grp,
               airplane = join '', '' airplanes,
               return_airplane = opt_join '', '' return_airplanes,
               legroom = join '', '' legrooms,
               return_legroom = opt_join '', '' return_legrooms,
               extensions = join '', '' extensions_all,
               return_flight_numbers = opt_join '' / '' return_fns,
               return_airline = opt_join '', '' return_airlines,
               return_extensions = opt_join '', '' return_extensions_all,
               preferred = False \<rparr>))"

text \<open>The dictionary that \<^verbatim>\<open>_extract_group_leg\<close> returns.\<close>

record leg =
  leg_origin :: string
  leg_destination :: string
  leg_airline :: string
  leg_flight_numbers :: string
  leg_depart_time :: string
  leg_arrive_time :: string
  leg_stops :: int
  leg_layover_info :: string
  leg_duration :: int
  leg_price :: int
  leg_travel_class :: string

definition extract_group_leg :: "flight_group \<Rightarrow> leg option" where
  "extract_group_leg grp =
     (case grp_flights grp of
        [] \<Rightarrow> None
      | first # rest \<Rightarrow>
         (let segments = first # rest;
              lst = last segments;
              airlines = foldl add_new_nonempty [] (map seg_airline segments);
              fns = filter (\<lambda>fn. fn \<noteq> []) (map seg_flight_number segments);
              layover_parts =
                map (\<lambda>lv. fmt_duration (lv_duration lv) @ '' at '' @ layover_code lv)
                  (grp_layovers grp)
          in Some \<lparr>
               leg_origin = airport_id (seg_departure_airport first),
               leg_destination = airport_id (seg_arrival_airport lst),
               leg_airline = join '', '' airlines,
               leg_flight_numbers = join '' / '' fns,
               leg_depart_time = (case airport_time (seg_departure_airport first) of
                                    None \<Rightarrow> [] | Some t \<Rightarrow> t),
               leg_arrive_time = (case airport_time (seg_arrival_airport lst) of
                                    None \<Rightarrow> [] | Some t \<Rightarrow> t),
               leg_stops = int (length segments) - 1,
               leg_layover_info = join ''; '' layover_parts,
               leg_duration = (case grp_total_duration grp of None \<Rightarrow> 0 | Some d \<Rightarrow> d),
               leg_price = (case grp_price grp of None \<Rightarrow> 0 | Some p \<Rightarrow> p),
               leg_travel_class = (case seg_travel_class first of None \<Rightarrow> ''Economy'' | Some c \<Rightarrow> c) \<rparr>))"

text \<open>The \<^verbatim>\<open>FlightResult(...)\<close> built for one outbound leg and one return leg.\<close>

definition pair_result :: "leg \<Rightarrow> leg \<Rightarrow> FlightResult" where
  "pair_result out_leg ret_leg =
     (let total_usd = leg_price out_leg + leg_price ret_leg in
      \<lparr> itinerary_type = ''independent_one_way'',
        origin = leg_origin out_leg,
        destination = leg_destination out_leg,
        airline = leg_airline out_leg,
        flight_numbers = leg_flight_numbers out_leg,
        depart_time = leg_depart_time out_leg,
        arrive_time = leg_arrive_time out_leg,
        return_depart_time = Some (leg_depart_time ret_leg),
        return_arrive_time = Some (leg_arrive_time ret_leg),
        stops = leg_stops out_leg,
        return_stops = Some (leg_stops ret_leg),
        layover_info = leg_layover_info out_leg,
        return_layover_info = Some (leg_layover_info ret_leg),
        total_duration_mins = leg_duration out_leg,
        return_total_duration_mins = Some (leg_duration ret_leg),
        price = total_usd,
        outbound_price = Some (leg_price out_leg),
        return_price = Some (leg_price ret_leg),
        total_price = Some total_usd,
        currency = ''USD'',
        travel_class = leg_travel_class out_leg,
        emissions_kg = None,
        airplane = [],
        return_airplane = None,
        legroom = [],
        return_legroom = None,
        extensions = [],
        return_flight_numbers = Some (leg_flight_numbers ret_leg),
        return_airline = Some (leg_airline ret_leg),
        return_extensions = None,
        preferred = False \<rparr>)"

text \<open>The inner loop over \<^verbatim>\<open>top_ret\<close> and the outer loop over \<^verbatim>\<open>top_out\<close>.\<close>

fun pairs_for_leg :: "leg \<Rightarrow> flight_group list \<Rightarrow> FlightResult list" where
  "pairs_for_leg out_leg [] = []"
| "pairs_for_leg out_leg (ret_g # rest) =
     (case extract_group_leg ret_g of
        None \<Rightarrow> pairs_for_leg out_leg rest
      | Some ret_leg \<Rightarrow> pair_result out_leg ret_leg # pairs_for_leg out_leg rest)"

fun pairs_loop :: "flight_group list \<Rightarrow> flight_group list \<Rightarrow> FlightResult list" where
  "pairs_loop [] top_ret = []"
| "pairs_loop (out_g # rest) top_ret =
     (case extract_group_leg out_g of
        None \<Rightarrow> pairs_loop rest top_ret
      | Some out_leg \<Rightarrow> pairs_for_leg out_leg top_ret @ pairs_loop rest top_ret)"

definition build_independent_pairs :: "flight_group list \<Rightarrow> flight_group list \<Rightarrow> FlightResult list" where
  "build_independent_pairs outbound_groups return_groups =
     (if outbound_groups = [] \<or> return_groups = [] then []
      else pairs_loop (take 3 outbound_groups) (take 3 return_groups))"

text \<open>The f-string that \<^verbatim>\<open>process_results\<close> uses as the deduplication key.\<close>

definition dedup_key :: "FlightResult \<Rightarrow> string" where
  "dedup_key r =
     itinerary_type r @ ''|'' @ flight_numbers r @ ''|'' @ depart_time r @ ''|''
       @ str_opt (return_flight_numbers r) @ ''|'' @ str_opt (return_depart_time r)"

text \<open>One pass of \<^verbatim>\<open>if dedup_key in seen: continue; seen.add(dedup_key); results.append(result)\<close>.\<close>

definition keep_first :: "string set \<times> FlightResult list \<Rightarrow> FlightResult \<Rightarrow> string set \<times> FlightResult list" where
  "keep_first st r =
     (if dedup_key r \<in> fst st then st
      else (insert (dedup_key r) (fst st), snd st @ [r]))"

text \<open>The results that one response yields before deduplication, in the order of the loops.\<close>

definition results_of_response :: "raw_response \<Rightarrow> FlightResult list" where
  "results_of_response response =
     (case response of
        EmptyDict \<Rightarrow> []
      | IndependentOneWay info outs rets \<Rightarrow> build_independent_pairs outs rets
      | ApiResponse a \<Rightarrow>
          List.map_filter process_flight_group (resp_best_flights a @ resp_other_flights a)
      | FatalError e \<Rightarrow> [])"

definition process_response :: "string set \<times> FlightResult list \<Rightarrow> raw_response \<Rightarrow> string set \<times> FlightResult list" where
  "process_response st response = foldl keep_first st (results_of_response response)"

definition process_results :: "raw_response list \<Rightarrow> FlightResult list" where
  "process_results raw_responses = snd (foldl process_response ({}, []) raw_responses)"


subsection \<open>Post-filters\<close>

text \<open>
  \<^verbatim>\<open>datetime.fromisoformat\<close> belongs to the Python library and is a parameter of the
  model: it gives \<open>None\<close> where the library raises \<^verbatim>\<open>ValueError\<close>. A
  \<^verbatim>\<open>datetime\<close> is timezone-naive (a wall-clock position) or timezone-aware (an
  instant); the number counts seconds along its own time line. Python orders two
  naive or two aware values and raises \<^verbatim>\<open>TypeError\<close> for one of each kind.
\<close>

datatype datetime = Naive real | Aware real

datatype py_error = TypeError

type_synonym iso_parser = "string \<Rightarrow> datetime option"

definition dt_greater :: "datetime \<Rightarrow> datetime \<Rightarrow> py_error + bool" where
  "dt_greater a b =
     (case a of
        Naive x \<Rightarrow> (case b of Naive y \<Rightarrow> Inr (x > y) | Aware y \<Rightarrow> Inl TypeError)
      | Aware x \<Rightarrow> (case b of Naive y \<Rightarrow> Inl TypeError | Aware y \<Rightarrow> Inr (x > y)))"

definition airline_matches :: "FlightResult \<Rightarrow> string \<Rightarrow> leg_scope \<Rightarrow> bool" where
  "airline_matches r needle leg =
     (let out_match = py_in needle (lower (airline r));
          ret_match = py_in needle (lower (case return_airline r of None \<Rightarrow> [] | Some a \<Rightarrow> a))
      in case leg of
           leg_outbound \<Rightarrow> out_match
         | leg_return \<Rightarrow> ret_match
         | leg_any \<Rightarrow> out_match \<or> ret_match)"

text \<open>
  One \<^verbatim>\<open>try: arr = datetime.fromisoformat(ts); if arr > deadline: keep = False
  except ValueError: pass\<close>: the new value of \<^verbatim>\<open>keep\<close>, which was true before.
\<close>

definition keep_after_check :: "iso_parser \<Rightarrow> datetime \<Rightarrow> string \<Rightarrow> py_error + bool" where
  "keep_after_check fromisoformat deadline ts =
     (case fromisoformat ts of
        None \<Rightarrow> Inr True
      | Some arr \<Rightarrow> (case dt_greater arr deadline of Inl e \<Rightarrow> Inl e | Inr late \<Rightarrow> Inr (\<not> late)))"

text \<open>The body of \<^verbatim>\<open>for r in results\<close> in the \<^verbatim>\<open>arrival_before\<close> branch: the final \<^verbatim>\<open>keep\<close>.\<close>

definition keep_result :: "iso_parser \<Rightarrow> leg_scope \<Rightarrow> datetime \<Rightarrow> FlightResult \<Rightarrow> py_error + bool" where
  "keep_result fromisoformat leg deadline r =
     (case (if (leg = leg_outbound \<or> leg = leg_any) \<and> arrive_time r \<noteq> []
            then keep_after_check fromisoformat deadline (arrive_time r)
            else Inr True) of
        Inl e \<Rightarrow> Inl e
      | Inr keep \<Rightarrow>
          (case return_arrive_time r of
             Some ra \<Rightarrow>
               (if (leg = leg_return \<or> leg = leg_any) \<and> ra \<noteq> [] \<and> keep
                then keep_after_check fromisoformat deadline ra
                else Inr keep)
           | None \<Rightarrow> Inr keep))"

fun arrival_filter :: "iso_parser \<Rightarrow> leg_scope \<Rightarrow> datetime \<Rightarrow> FlightResult list \<Rightarrow> py_error + FlightResult list" where
  "arrival_filter fromisoformat leg deadline [] = Inr []"
| "arrival_filter fromisoformat leg deadline (r # rs) =
     (case keep_result fromisoformat leg deadline r of
        Inl e \<Rightarrow> Inl e
      | Inr keep \<Rightarrow>
          (case arrival_filter fromisoformat leg deadline rs of
             Inl e \<Rightarrow> Inl e
           | Inr filtered \<Rightarrow> Inr (if keep then r # filtered else filtered)))"

fun apply_post_filters :: "iso_parser \<Rightarrow> FlightResult list \<Rightarrow> PostFilter list \<Rightarrow> py_error + FlightResult list" where
  "apply_post_filters fromisoformat results [] = Inr results"
| "apply_post_filters fromisoformat results (pf # pfs) =
     (case filter_type pf of
        at_least_one_leg_airline \<Rightarrow>
          (let needle = lower (pf_value pf);
               preferred_results = filter (\<lambda>r. airline_matches r needle (pf_leg pf)) results;
               others = filter (\<lambda>r. \<not> airline_matches r needle (pf_leg pf)) results
           in apply_post_filters fromisoformat
                (map (\<lambda>r. r\<lparr>preferred := True\<rparr>) preferred_results @ others) pfs)
      | arrival_before \<Rightarrow>
          (case fromisoformat (pf_value pf) of
             None \<Rightarrow> apply_post_filters fromisoformat results pfs
           | Some deadline \<Rightarrow>
               (case arrival_filter fromisoformat (pf_leg pf) deadline results of
                  Inl e \<Rightarrow> Inl e
                | Inr filtered \<Rightarrow> apply_post_filters fromisoformat filtered pfs)))"


section \<open>config.py and the world of the fetcher\<close>

definition SERPAPI_MONTHLY_LIMIT :: int where
  "SERPAPI_MONTHLY_LIMIT = 250"

definition SERPAPI_CALL_DELAY :: real where
  "SERPAPI_CALL_DELAY = 12 / 10"

definition SERPAPI_CACHE_TTL_HOURS :: real where
  "SERPAPI_CACHE_TTL_HOURS = 12"

record SearchCombination =
  sc_departure_id :: string
  sc_arrival_id :: string
  sc_outbound_date :: string
  sc_return_date :: "string option"
  sc_type :: int
  sc_travel_class :: int
  sc_adults :: int
  sc_children :: int
  sc_stops :: int
  sc_include_airlines :: "string option"
  sc_exclude_airlines :: "string option"
  sc_max_price :: "int option"
  sc_max_duration :: "int option"
  sc_bags :: int
  sc_sort_by :: int
  sc_outbound_times :: "string option"
  sc_return_times :: "string option"

text \<open>
  The query parameters: a Python dictionary from strings to strings, in insertion order.
  \<open>AList.update\<close> is \<^verbatim>\<open>d[k] = v\<close> and \<open>AList.delete\<close> is \<^verbatim>\<open>d.pop(k, None)\<close>.
\<close>

type_synonym params = "(string \<times> string) list"

text \<open>What \<^verbatim>\<open>GoogleSearch(params).get_dict()\<close> does: it raises or returns a response.\<close>

datatype api_outcome = Raises | Returns api_response

text \<open>
  What the program reads from outside: the credential, the \<^verbatim>\<open>--no-cache\<close> flag, the
  SHA-256 digest and \<^verbatim>\<open>str.upper\<close> of the Python library, the upstream search (its
  answer may depend on the requests sent before) and the calendar that turns a time stamp
  into the \<^verbatim>\<open>"%Y-%m"\<close> string of the local date.
\<close>

record env =
  SERPAPI_KEY :: string
  NO_CACHE :: bool
  sha256_hexdigest :: "string \<Rightarrow> string"
  str_upper :: "string \<Rightarrow> string"
  google_search :: "params list \<Rightarrow> params \<Rightarrow> api_outcome"
  month_of :: "real \<Rightarrow> string"

record usage_record =
  u_month :: string
  u_count :: int

record cache_entry =
  ce_timestamp :: real
  ce_response :: "api_response option"

text \<open>
  The state that the fetcher reads and writes: the usage file (\<open>None\<close> when it is missing
  or unreadable), the cache file (the empty map when it is missing or unreadable), the
  requests sent upstream so far, and the clock in seconds. Only \<^verbatim>\<open>time.sleep\<close> moves the clock.
\<close>

record world =
  usage_file :: "usage_record option"
  cache_file :: "string \<rightharpoonup> cache_entry"
  calls :: "params list"
  now :: real

section \<open>flight\_fetcher.py\<close>

subsection \<open>Usage tracking\<close>

definition load_usage :: "env \<Rightarrow> world \<Rightarrow> usage_record" where
  "load_usage e s =
     (case usage_file s of
        None \<Rightarrow> \<lparr> u_month = month_of e (now s), u_count = 0 \<rparr>
      | Some data \<Rightarrow>
          (if u_month data \<noteq> month_of e (now s)
           then \<lparr> u_month = month_of e (now s), u_count = 0 \<rparr>
           else data))"

definition get_monthly_usage :: "env \<Rightarrow> world \<Rightarrow> int" where
  "get_monthly_usage e s = u_count (load_usage e s)"

definition increment_usage :: "env \<Rightarrow> world \<Rightarrow> world" where
  "increment_usage e s =
     (let usage = load_usage e s
      in s\<lparr> usage_file := Some (usage\<lparr> u_count := u_count usage + 1 \<rparr>) \<rparr>)"

subsection \<open>Local response cache\<close>

text \<open>\<^verbatim>\<open>json.dumps\<close> of a string, and of a dictionary of strings whose items are given in order.\<close>

definition hex_digit :: "nat \<Rightarrow> char" where
  "hex_digit d = ''0123456789abcdef'' ! (d mod 16)"

definition json_escape :: "char \<Rightarrow> string" where
  "json_escape c =
     (let n = (of_char c :: nat) in
      if n = 34 then [CHR 0x5C, CHR 0x22]
      else if n = 92 then [CHR 0x5C, CHR 0x5C]
      else if n = 10 then [CHR 0x5C, CHR ''n'']
      else if n = 13 then [CHR 0x5C, CHR ''r'']
      else if n = 9 then [CHR 0x5C, CHR ''t'']
      else if n = 8 then [CHR 0x5C, CHR ''b'']
      else if n = 12 then [CHR 0x5C, CHR ''f'']
      else if 32 \<le> n \<and> n \<le> 126 then [c]
      else [CHR 0x5C, CHR ''u'', CHR ''0'', CHR ''0'', hex_digit (n div 16), hex_digit (n mod 16)])"

definition json_string :: "string \<Rightarrow> string" where
  "json_string s = [CHR 0x22] @ concat (map json_escape s) @ [CHR 0x22]"

definition json_dumps :: "params \<Rightarrow> string" where
  "json_dumps d =
     ''{'' @ join '', '' (map (\<lambda>(k, v). json_string k @ '': '' @ json_string v) d) @ ''}''"

text \<open>
  \<^verbatim>\<open>sorted(params.items())\<close> orders the items by key (the keys of a dictionary are
  distinct), the comprehension drops \<^verbatim>\<open>api_key\<close>, and \<^verbatim>\<open>sort_keys=True\<close> orders by key
  once more.
\<close>

definition cache_key :: "env \<Rightarrow> params \<Rightarrow> string" where
  "cache_key e ps =
     (let stable = filter (\<lambda>(k, v). k \<noteq> ''api_key'') (sort_key fst ps)
      in sha256_hexdigest e (json_dumps (sort_key fst stable)))"

definition cache_save :: "real \<Rightarrow> (string \<rightharpoonup> cache_entry) \<Rightarrow> (string \<rightharpoonup> cache_entry)" where
  "cache_save t cache =
     (\<lambda>k. case cache k of
             None \<Rightarrow> None
           | Some v \<Rightarrow> if t - ce_timestamp v < SERPAPI_CACHE_TTL_HOURS * 3600 then Some v else None)"

definition cache_lookup :: "env \<Rightarrow> world \<Rightarrow> params \<Rightarrow> api_response option" where
  "cache_lookup e s ps =
     (if NO_CACHE e then None
      else (case cache_file s (cache_key e ps) of
              None \<Rightarrow> None
            | Some entry \<Rightarrow>
                (if (now s - ce_timestamp entry) / 3600 > SERPAPI_CACHE_TTL_HOURS then None
                 else ce_response entry)))"

definition cache_store :: "env \<Rightarrow> world \<Rightarrow> params \<Rightarrow> api_response \<Rightarrow> world" where
  "cache_store e s ps response =
     (if NO_CACHE e then s
      else s\<lparr> cache_file :=
                cache_save (now s)
                  ((cache_file s)(cache_key e ps \<mapsto>
                     \<lparr> ce_timestamp = now s, ce_response = Some response \<rparr>)) \<rparr>)"

subsection \<open>Query parameters\<close>

definition METRO_EXPANSION :: "(string \<times> string) list" where
  "METRO_EXPANSION =
     [(''WAS'', ''DCA,IAD,BWI''), (''NYC'', ''JFK,EWR,LGA''), (''CHI'', ''ORD,MDW''),
      (''YTO'', ''YYZ,YTZ''), (''BJS'', ''PEK,PKX''), (''SEA'', ''SEA'')]"

definition expand_airports :: "env \<Rightarrow> string \<Rightarrow> string" where
  "expand_airports e code =
     (case map_of METRO_EXPANSION (str_upper e code) of None \<Rightarrow> code | Some x \<Rightarrow> x)"

definition departure_only :: "string \<Rightarrow> string" where
  "departure_only time_str =
     (let parts = split_on CHR '','' time_str
      in if length parts \<ge> 2 then strip (parts ! 0) @ '','' @ strip (parts ! 1) else time_str)"

text \<open>\<^verbatim>\<open>if x: params[k] = f(x)\<close> for an optional string and for an optional integer.\<close>

definition set_if_truthy :: "string \<Rightarrow> string option \<Rightarrow> (string \<Rightarrow> string) \<Rightarrow> params \<Rightarrow> params" where
  "set_if_truthy k x f ps =
     (case x of None \<Rightarrow> ps | Some v \<Rightarrow> if v \<noteq> [] then AList.update k (f v) ps else ps)"

definition set_if_given :: "string \<Rightarrow> int option \<Rightarrow> params \<Rightarrow> params" where
  "set_if_given k x ps = (case x of None \<Rightarrow> ps | Some n \<Rightarrow> AList.update k (str_int n) ps)"

definition build_params :: "env \<Rightarrow> SearchCombination \<Rightarrow> params" where
  "build_params e combo =
     (let p0 = [(''engine'', ''google_flights''),
                (''api_key'', SERPAPI_KEY e),
                (''departure_id'', expand_airports e (sc_departure_id combo)),
                (''arrival_id'', expand_airports e (sc_arrival_id combo)),
                (''outbound_date'', sc_outbound_date combo),
                (''type'', str_int (sc_type combo)),
                (''travel_class'', str_int (sc_travel_class combo)),
                (''adults'', str_int (sc_adults combo)),
                (''children'', str_int (sc_children combo)),
                (''stops'', str_int (sc_stops combo)),
                (''sort_by'', str_int (sc_sort_by combo)),
                (''bags'', str_int (sc_bags combo)),
                (''currency'', ''USD''),
                (''hl'', ''en''),
                (''gl'', ''us''),
                (''deep_search'', ''true'')];
          p1 = set_if_truthy ''return_date'' (sc_return_date combo) (\<lambda>v. v) p0;
          p2 = (if truthy (sc_include_airlines combo)
                then set_if_truthy ''include_airlines'' (sc_include_airlines combo) (\<lambda>v. v) p1
                else set_if_truthy ''exclude_airlines'' (sc_exclude_airlines combo) (\<lambda>v. v) p1);
          p3 = set_if_given ''max_price'' (sc_max_price combo) p2;
          p4 = set_if_given ''max_duration'' (sc_max_duration combo) p3;
          p5 = set_if_truthy ''outbound_times'' (sc_outbound_times combo) departure_only p4
      in set_if_truthy ''return_times'' (sc_return_times combo) departure_only p5)"

text \<open>
  \<^verbatim>\<open>combo.type == 1 and combo.return_date\<close>: the return date where the test holds.
\<close>

definition round_trip_date :: "SearchCombination \<Rightarrow> string option" where
  "round_trip_date combo =
     (case sc_return_date combo of
        None \<Rightarrow> None
      | Some rd \<Rightarrow> if sc_type combo = 1 \<and> rd \<noteq> [] then Some rd else None)"

definition is_round_trip :: "SearchCombination \<Rightarrow> bool" where
  "is_round_trip combo = (round_trip_date combo \<noteq> None)"

subsection \<open>Upstream calls\<close>

text \<open>The request is recorded in \<open>calls\<close>, whether the library call returns or raises.\<close>

definition send_request :: "env \<Rightarrow> world \<Rightarrow> params \<Rightarrow> api_outcome \<times> world" where
  "send_request e s ps = (google_search e (calls s) ps, s\<lparr> calls := calls s @ [ps] \<rparr>)"

text \<open>\<^verbatim>\<open>error = results.get("error")\<close> where \<^verbatim>\<open>if error:\<close> holds.\<close>

definition error_of :: "api_response \<Rightarrow> string option" where
  "error_of r = (case resp_error r of None \<Rightarrow> None | Some err \<Rightarrow> if err \<noteq> [] then Some err else None)"

definition all_groups :: "api_response \<Rightarrow> flight_group list" where
  "all_groups r = resp_best_flights r @ resp_other_flights r"

text \<open>
  \<^verbatim>\<open>_lookup_return_group\<close>: \<open>None\<close> stands for the empty dictionary that the source
  returns; a flight group of a response is a dictionary with keys, which Python takes for true.
\<close>

definition lookup_return_group :: "env \<Rightarrow> world \<Rightarrow> params \<Rightarrow> string \<Rightarrow> flight_group option \<times> world" where
  "lookup_return_group e s base_params departure_token =
     (let ps = AList.update ''departure_token'' departure_token base_params in
      case cache_lookup e s ps of
        Some cached \<Rightarrow>
          (case all_groups cached of [] \<Rightarrow> (None, s) | g # _ \<Rightarrow> (Some g, s))
      | None \<Rightarrow>
          (if u_count (load_usage e s) \<ge> SERPAPI_MONTHLY_LIMIT then (None, s)
           else (case send_request e s ps of
                   (Raises, s1) \<Rightarrow> (None, s1)
                 | (Returns results, s1) \<Rightarrow>
                     (if error_of results \<noteq> None then (None, s1)
                      else (case all_groups results of
                              [] \<Rightarrow> (None, s1)
                            | g # _ \<Rightarrow>
                                (Some g, cache_store e (increment_usage e s1) ps results))))))"

definition fetch_one_way_groups :: "env \<Rightarrow> world \<Rightarrow> params \<Rightarrow> flight_group list \<times> world" where
  "fetch_one_way_groups e s ps =
     (case cache_lookup e s ps of
        Some cached \<Rightarrow> (all_groups cached, s)
      | None \<Rightarrow>
          (if u_count (load_usage e s) \<ge> SERPAPI_MONTHLY_LIMIT then ([], s)
           else (case send_request e s ps of
                   (Raises, s1) \<Rightarrow> ([], s1)
                 | (Returns results, s1) \<Rightarrow>
                     (if error_of results \<noteq> None then ([], s1)
                      else (let groups = all_groups results in
                            if groups \<noteq> []
                            then (groups, cache_store e (increment_usage e s1) ps results)
                            else (groups, s1))))))"

text \<open>The body of the loop of \<^verbatim>\<open>_enrich_return_legs\<close> for one group, and the loop.\<close>

definition enrich_group :: "env \<Rightarrow> params \<Rightarrow> world \<Rightarrow> flight_group \<Rightarrow> flight_group \<times> world" where
  "enrich_group e ps s grp =
     (case grp_departure_token grp of
        None \<Rightarrow> (grp, s)
      | Some token \<Rightarrow>
          (if token = [] then (grp, s)
           else (case lookup_return_group e s ps token of
                   (None, s1) \<Rightarrow> (grp, s1)
                 | (Some return_group, s1) \<Rightarrow>
                     (grp\<lparr> grp_return_flights := grp_flights return_group,
                           grp_return_layovers := grp_layovers return_group,
                           grp_return_total_duration := grp_total_duration return_group,
                           grp_return_airline_logo := grp_airline_logo return_group,
                           grp_return_extensions := grp_extensions return_group \<rparr>, s1))))"

fun enrich_groups :: "env \<Rightarrow> params \<Rightarrow> world \<Rightarrow> flight_group list \<Rightarrow> flight_group list \<times> world" where
  "enrich_groups e ps s [] = ([], s)"
| "enrich_groups e ps s (grp # rest) =
     (case enrich_group e ps s grp of
        (grp1, s1) \<Rightarrow> (case enrich_groups e ps s1 rest of (rest1, s2) \<Rightarrow> (grp1 # rest1, s2)))"

text \<open>
  \<^verbatim>\<open>_enrich_return_legs\<close> changes the first five groups of
  \<^verbatim>\<open>best_flights + other_flights\<close> in place; the model returns the response with the
  changed groups at their places.
\<close>

definition enrich_return_legs :: "env \<Rightarrow> world \<Rightarrow> api_response \<Rightarrow> params \<Rightarrow> api_response \<times> world" where
  "enrich_return_legs e s results ps =
     (case enrich_groups e ps s (take 5 (all_groups results)) of
        (top5, s1) \<Rightarrow>
          (let groups = top5 @ drop 5 (all_groups results);
               n = length (resp_best_flights results)
           in (results\<lparr> resp_best_flights := take n groups,
                        resp_other_flights := drop n groups \<rparr>, s1)))"

definition fetch_combination :: "env \<Rightarrow> world \<Rightarrow> SearchCombination \<Rightarrow> raw_response \<times> world" where
  "fetch_combination e s combo =
     (if u_count (load_usage e s) \<ge> SERPAPI_MONTHLY_LIMIT then (EmptyDict, s)
      else
        (let ps = build_params e combo in
         case cache_lookup e s ps of
           Some cached \<Rightarrow>
             (if is_round_trip combo
              then (case enrich_return_legs e s cached ps of (c1, s1) \<Rightarrow> (ApiResponse c1, s1))
              else (ApiResponse cached, s))
         | None \<Rightarrow>
             (case send_request e s ps of
                (Raises, s1) \<Rightarrow> (EmptyDict, s1)
              | (Returns results, s1) \<Rightarrow>
                  (case error_of results of
                     Some err \<Rightarrow>
                       (if py_in ''invalid api key'' (lower err)
                        then (FatalError err, s1)
                        else (EmptyDict, s1))
                   | None \<Rightarrow>
                       (let s2 = cache_store e (increment_usage e s1) ps results in
                        if is_round_trip combo
                        then (case enrich_return_legs e s2 results ps of
                                (r1, s3) \<Rightarrow> (ApiResponse r1, s3))
                        else (ApiResponse results, s2))))))"


subsection \<open>The batch\<close>

text \<open>
  The one-way parameters of the two legs, as \<^verbatim>\<open>fetch_all\<close> derives them from
  \<^verbatim>\<open>base\<close> (the same lines serve the main loop and the dual fetch).
\<close>

definition trim_outbound_times :: "params \<Rightarrow> params" where
  "trim_outbound_times ps =
     (case map_of ps ''outbound_times'' of
        None \<Rightarrow> ps
      | Some v \<Rightarrow>
          (if v = [] then ps
           else (let parts = split_on CHR '','' v
                 in if length parts = 4
                    then AList.update ''outbound_times'' (parts ! 0 @ '','' @ parts ! 1) ps
                    else ps)))"

definition outbound_one_way :: "params \<Rightarrow> params" where
  "outbound_one_way base =
     trim_outbound_times
       (AList.delete ''return_times'' (AList.delete ''return_date'' (AList.update ''type'' ''2'' base)))"

definition return_one_way :: "env \<Rightarrow> SearchCombination \<Rightarrow> string \<Rightarrow> params \<Rightarrow> params" where
  "return_one_way e combo rd base =
     (let p1 = AList.update ''type'' ''2'' base;
          p2 = AList.update ''departure_id'' (expand_airports e (sc_arrival_id combo)) p1;
          p3 = AList.update ''arrival_id'' (expand_airports e (sc_departure_id combo)) p2;
          p4 = AList.update ''outbound_date'' rd p3;
          p5 = AList.delete ''outbound_times'' (AList.delete ''return_date'' p4)
      in set_if_truthy ''outbound_times'' (sc_return_times combo)
           (\<lambda>rt. let rt_parts = split_on CHR '','' rt
                 in if length rt_parts \<ge> 2 then rt_parts ! 0 @ '','' @ rt_parts ! 1 else rt) p5)"

definition info_of :: "SearchCombination \<Rightarrow> combo_info" where
  "info_of combo =
     \<lparr> ci_departure_id = sc_departure_id combo,
       ci_arrival_id = sc_arrival_id combo,
       ci_outbound_date = sc_outbound_date combo,
       ci_return_date = sc_return_date combo \<rparr>"

text \<open>The two one-way searches of a round trip with return date \<open>rd\<close>, and the unit appended.\<close>

definition independent_legs :: "env \<Rightarrow> world \<Rightarrow> SearchCombination \<Rightarrow> string \<Rightarrow> params \<Rightarrow> raw_response \<times> world" where
  "independent_legs e s combo rd base =
     (case fetch_one_way_groups e s (outbound_one_way base) of
        (outbound_groups, s1) \<Rightarrow>
          (case fetch_one_way_groups e s1 (return_one_way e combo rd base) of
             (return_groups, s2) \<Rightarrow>
               (IndependentOneWay (info_of combo) outbound_groups return_groups, s2)))"

definition sleep :: "world \<Rightarrow> world" where
  "sleep s = s\<lparr> now := now s + SERPAPI_CALL_DELAY \<rparr>"

text \<open>\<^verbatim>\<open>raw.get("__fatal_error__")\<close> taken for true.\<close>

definition is_fatal :: "raw_response \<Rightarrow> bool" where
  "is_fatal raw = (case raw of FatalError err \<Rightarrow> err \<noteq> [] | _ \<Rightarrow> False)"

text \<open>
  The main loop, \<^verbatim>\<open>for i, combo in enumerate(combinations, start=1)\<close>, from position
  \<open>i\<close> on, with the results and the world so far.
\<close>

fun fetch_loop :: "env \<Rightarrow> nat \<Rightarrow> nat \<Rightarrow> SearchCombination list \<Rightarrow> raw_response list \<times> world \<Rightarrow> raw_response list \<times> world" where
  "fetch_loop e n_total i [] acc = acc"
| "fetch_loop e n_total i (combo # rest) acc =
     (case fetch_combination e (snd acc) combo of
        (raw, s1) \<Rightarrow>
          (if is_fatal raw then (fst acc @ [raw], s1)
           else
             (case (case round_trip_date combo of
                      None \<Rightarrow> (fst acc @ [raw], s1)
                    | Some rd \<Rightarrow>
                        (case independent_legs e s1 combo rd
                                (AList.delete ''exclude_airlines''
                                  (AList.delete ''include_airlines'' (build_params e combo))) of
                           (unit, s2) \<Rightarrow> (fst acc @ [raw, unit], s2))) of
                (results, s3) \<Rightarrow>
                  fetch_loop e n_total (Suc i) rest
                    (results, if i < n_total then sleep s3 else s3))))"

definition NAME_TO_IATA :: "(string \<times> string) list" where
  "NAME_TO_IATA =
     [(''spirit'', ''NK''), (''frontier'', ''F9''), (''southwest'', ''WN''), (''allegiant'', ''G4''),
      (''sun country'', ''SY''), (''breeze'', ''MX''), (''avelo'', ''XP''), (''jetblue'', ''B6''),
      (''alaska'', ''AS''), (''hawaiian'', ''HA''), (''united'', ''UA''), (''american'', ''AA''),
      (''delta'', ''DL''), (''british airways'', ''BA''), (''lufthansa'', ''LH'')]"

definition iata_of :: "env \<Rightarrow> PostFilter \<Rightarrow> string" where
  "iata_of e af =
     (case map_of NAME_TO_IATA (lower (pf_value af)) of
        None \<Rightarrow> take 2 (str_upper e (pf_value af))
      | Some code \<Rightarrow> code)"

text \<open>The loop \<^verbatim>\<open>for af in airline_filters\<close> of the dual fetch for one combination.\<close>

fun dual_filters :: "env \<Rightarrow> SearchCombination \<Rightarrow> string \<Rightarrow> PostFilter list \<Rightarrow> raw_response list \<times> world \<Rightarrow> raw_response list \<times> world" where
  "dual_filters e combo rd [] acc = acc"
| "dual_filters e combo rd (af # afs) acc =
     (case independent_legs e (snd acc) combo rd
             (AList.delete ''exclude_airlines''
               (AList.update ''include_airlines'' (iata_of e af) (build_params e combo))) of
        (unit, s1) \<Rightarrow> dual_filters e combo rd afs (fst acc @ [unit], s1))"

definition route_key :: "SearchCombination \<Rightarrow> string" where
  "route_key combo =
     sc_departure_id combo @ ''|'' @ sc_arrival_id combo @ ''|'' @ sc_outbound_date combo
       @ ''|'' @ str_opt (sc_return_date combo)"

text \<open>The loop \<^verbatim>\<open>for combo in combinations\<close> of the dual fetch, with \<^verbatim>\<open>seen_routes\<close>.\<close>

fun dual_loop :: "env \<Rightarrow> PostFilter list \<Rightarrow> SearchCombination list \<Rightarrow> string set \<Rightarrow> raw_response list \<times> world \<Rightarrow> raw_response list \<times> world" where
  "dual_loop e afs [] seen_routes acc = acc"
| "dual_loop e afs (combo # rest) seen_routes acc =
     (case round_trip_date combo of
        None \<Rightarrow> dual_loop e afs rest seen_routes acc
      | Some rd \<Rightarrow>
          (if route_key combo \<in> seen_routes then dual_loop e afs rest seen_routes acc
           else (case dual_filters e combo rd afs acc of
                   (results, s1) \<Rightarrow>
                     dual_loop e afs rest (insert (route_key combo) seen_routes)
                       (results, sleep s1))))"

definition fetch_all :: "env \<Rightarrow> world \<Rightarrow> SearchCombination list \<Rightarrow> PostFilter list \<Rightarrow> raw_response list \<times> world" where
  "fetch_all e s combinations post_filters =
     (let main = fetch_loop e (length combinations) 1 combinations ([], s);
          airline_filters = filter (\<lambda>f. filter_type f = at_least_one_leg_airline) post_filters
      in if airline_filters \<noteq> [] \<and> combinations \<noteq> []
         then dual_loop e airline_filters combinations {} main
         else main)"

section \<open>Auxiliary definitions for the proofs\<close>

text \<open>
  What the loop of \<^verbatim>\<open>process_results\<close> keeps of a list of results when the keys in
  \<open>seen\<close> have been met before: a function of the list, for the proofs.
\<close>

fun firsts :: "string set \<Rightarrow> FlightResult list \<Rightarrow> FlightResult list" where
  "firsts seen [] = []"
| "firsts seen (r # rs) =
     (if dedup_key r \<in> seen then firsts seen rs
      else r # firsts (insert (dedup_key r) seen) rs)"


subsection \<open>Example values\<close>

definition ex_segment :: "string \<Rightarrow> string \<Rightarrow> string \<Rightarrow> string \<Rightarrow> string \<Rightarrow> string \<Rightarrow> segment" where
  "ex_segment carrier fn dep dep_time arr arr_time =
     \<lparr> seg_departure_airport = Some \<lparr> ap_id = Some dep, ap_time = Some dep_time \<rparr>,
       seg_arrival_airport = Some \<lparr> ap_id = Some arr, ap_time = Some arr_time \<rparr>,
       seg_airline = carrier,
       seg_flight_number = fn,
       seg_airplane = ''Airbus A320'',
       seg_legroom = ''28 in'',
       seg_extensions = [],
       seg_travel_class = Some ''Economy'' \<rparr>"

definition ex_group :: "segment list \<Rightarrow> int \<Rightarrow> flight_group" where
  "ex_group segs usd =
     \<lparr> grp_flights = segs,
       grp_layovers = [],
       grp_total_duration = Some 222,
       grp_price = Some usd,
       grp_carbon_this_flight = None,
       grp_departure_token = None,
       grp_airline_logo = None,
       grp_extensions = [],
       grp_return_flights = [],
       grp_return_layovers = [],
       grp_return_total_duration = None,
       grp_return_airline_logo = None,
       grp_return_extensions = [] \<rparr>"

definition ex_out :: "string \<Rightarrow> string \<Rightarrow> int \<Rightarrow> flight_group" where
  "ex_out carrier fn usd =
     ex_group [ex_segment carrier fn ''AUS'' ''2026-03-10 06:30'' ''LAX'' ''2026-03-10 08:12''] usd"

definition ex_ret :: "string \<Rightarrow> string \<Rightarrow> int \<Rightarrow> flight_group" where
  "ex_ret carrier fn usd =
     ex_group [ex_segment carrier fn ''LAX'' ''2026-03-12 18:05'' ''AUS'' ''2026-03-12 23:10''] usd"

definition ex_response :: "flight_group list \<Rightarrow> api_response" where
  "ex_response groups = \<lparr> resp_error = None, resp_best_flights = groups, resp_other_flights = [] \<rparr>"

text \<open>The kind of a \<^verbatim>\<open>datetime\<close> and its position on its time line.\<close>

definition is_aware :: "datetime \<Rightarrow> bool" where
  "is_aware d = (case d of Naive x \<Rightarrow> False | Aware x \<Rightarrow> True)"

definition dt_seconds :: "datetime \<Rightarrow> real" where
  "dt_seconds d = (case d of Naive x \<Rightarrow> x | Aware x \<Rightarrow> x)"

text \<open>
  The values of \<^verbatim>\<open>datetime.fromisoformat\<close> on the strings of the examples, in seconds
  after 2026-03-30 00:00; the strings outside the table are not used.
\<close>

definition ex_fromisoformat :: iso_parser where
  "ex_fromisoformat =
     map_of
       [(''2026-03-30T08:00'', Naive 28800),
        (''2026-03-30T08:00:00'', Naive 28800),
        (''2026-03-30T08:00:01'', Naive 28801),
        (''2026-03-30 07:15'', Naive 26100),
        (''2026-03-30 09:40'', Naive 34800),
        (''2026-03-30T08:00+00:00'', Aware 28800)]"

definition ex_result :: "string \<Rightarrow> string \<Rightarrow> string \<Rightarrow> string option \<Rightarrow> FlightResult" where
  "ex_result carrier fn arrival return_arrival =
     \<lparr> itinerary_type = ''round_trip'',
       origin = ''AUS'',
       destination = ''LAX'',
       airline = carrier,
       flight_numbers = fn,
       depart_time = ''2026-03-30 05:00'',
       arrive_time = arrival,
       return_depart_time = None,
       return_arrive_time = return_arrival,
       stops = 0,
       return_stops = None,
       layover_info = [],
       return_layover_info = None,
       total_duration_mins = 222,
       return_total_duration_mins = None,
       price = 120,
       outbound_price = Some 120,
       return_price = None,
       total_price = Some 120,
       currency = ''USD'',
       travel_class = ''Economy'',
       emissions_kg = None,
       airplane = ''Airbus A320'',
       return_airplane = None,
       legroom = ''28 in'',
       return_legroom = None,
       extensions = [],
       return_flight_numbers = None,
       return_airline = None,
       return_extensions = None,
       preferred = False \<rparr>"

text \<open>
  The values of \<^verbatim>\<open>str.upper\<close> on the strings of ASCII characters, which are the ones
  that the examples use.
\<close>

definition ex_upper :: "string \<Rightarrow> string" where
  "ex_upper s =
     map (\<lambda>c. case map_of (zip ascii_lowercase ascii_uppercase) c of None \<Rightarrow> c | Some u \<Rightarrow> u) s"

text \<open>
  The surroundings of the examples: the digest is the identity, so that a cache key is
  the canonical serialisation itself; every time stamp lies in March 2026; the upstream
  search is a parameter.
\<close>

definition ex_env :: "(params list \<Rightarrow> params \<Rightarrow> api_outcome) \<Rightarrow> env" where
  "ex_env search =
     \<lparr> SERPAPI_KEY = ''k-123'',
       NO_CACHE = False,
       sha256_hexdigest = (\<lambda>text. text),
       str_upper = ex_upper,
       google_search = search,
       month_of = (\<lambda>t. ''2026-03'') \<rparr>"

definition ex_combo :: "string \<Rightarrow> string \<Rightarrow> string \<Rightarrow> string option \<Rightarrow> int \<Rightarrow> SearchCombination" where
  "ex_combo dep arr outbound ret trip =
     \<lparr> sc_departure_id = dep,
       sc_arrival_id = arr,
       sc_outbound_date = outbound,
       sc_return_date = ret,
       sc_type = trip,
       sc_travel_class = 1,
       sc_adults = 1,
       sc_children = 0,
       sc_stops = 0,
       sc_include_airlines = None,
       sc_exclude_airlines = None,
       sc_max_price = None,
       sc_max_duration = None,
       sc_bags = 0,
       sc_sort_by = 2,
       sc_outbound_times = None,
       sc_return_times = None \<rparr>"

text \<open>An upstream search that answers every request with the same outcome.\<close>

definition always :: "api_outcome \<Rightarrow> params list \<Rightarrow> params \<Rightarrow> api_outcome" where
  "always outcome sent ps = outcome"

definition ex_world :: "int \<Rightarrow> (string \<rightharpoonup> cache_entry) \<Rightarrow> world" where
  "ex_world used cache =
     \<lparr> usage_file = Some \<lparr> u_month = ''2026-03'', u_count = used \<rparr>,
       cache_file = cache,
       calls = [],
       now = 1000 \<rparr>"

text \<open>A cache file with one entry: the response \<open>r\<close> stored for \<open>ps\<close> at time \<open>t\<close>.\<close>

definition ex_cache :: "env \<Rightarrow> params \<Rightarrow> api_response \<Rightarrow> real \<Rightarrow> (string \<rightharpoonup> cache_entry)" where
  "ex_cache e ps r t = [cache_key e ps \<mapsto> \<lparr> ce_timestamp = t, ce_response = Some r \<rparr>]"

text \<open>
  The step from \<open>s\<close> to \<open>s1\<close> leaves the clock alone, only adds requests that satisfy
  \<open>P\<close>, and raises the usage count by at most the number of these requests.
\<close>

definition sends_only :: "env \<Rightarrow> (params \<Rightarrow> bool) \<Rightarrow> world \<Rightarrow> world \<Rightarrow> bool" where
  "sends_only e P s s1 =
     (now s1 = now s
      \<and> (\<exists>new. calls s1 = calls s @ new \<and> list_all P new
            \<and> u_count (load_usage e s1) \<le> u_count (load_usage e s) + int (length new)))"



text \<open>
  A one-way search and a round trip from Austin to Los Angeles, the one-way parameters
  of the two legs of the round trip, and a cache file that holds a response for each leg.
\<close>

definition ex_one_way :: SearchCombination where
  "ex_one_way = ex_combo ''AUS'' ''LAX'' ''2026-03-09'' None 2"

definition ex_round_trip :: SearchCombination where
  "ex_round_trip = ex_combo ''AUS'' ''LAX'' ''2026-03-10'' (Some ''2026-03-12'') 1"



text \<open>
  The answer of the upstream search to a request with a bad credential, a second round
  trip, and a preference for one airline.
\<close>

definition ex_bad_key :: api_response where
  "ex_bad_key =
     \<lparr> resp_error = Some ''Invalid API key. Your API key should be here: https://serpapi.com/manage-api-key'',
       resp_best_flights = [],
       resp_other_flights = [] \<rparr>"

definition ex_round_trip2 :: SearchCombination where
  "ex_round_trip2 = ex_combo ''DEN'' ''LAX'' ''2026-03-11'' (Some ''2026-03-13'') 1"

definition ex_prefer :: PostFilter where
  "ex_prefer = \<lparr> filter_type = at_least_one_leg_airline, pf_value = ''Frontier'', pf_leg = leg_any \<rparr>"

text \<open>The surroundings of the examples when the program runs with \<^verbatim>\<open>--no-cache\<close>.\<close>

definition ex_env_no_cache :: "(params list \<Rightarrow> params \<Rightarrow> api_outcome) \<Rightarrow> env" where
  "ex_env_no_cache search = (ex_env search)\<lparr> NO_CACHE := True \<rparr>"

section \<open>Properties of the normaliser\<close>

subsection \<open>Independent pairs\<close>


lemma pairs_for_leg_eq:
  "pairs_for_leg ol rets = map (pair_result ol) (List.map_filter extract_group_leg rets)"
  by (induction rets) (auto simp: split: option.splits)

lemma pairs_loop_eq:
  "pairs_loop outs rets =
     concat (map (\<lambda>ol. map (pair_result ol) (List.map_filter extract_group_leg rets))
               (List.map_filter extract_group_leg outs))"
  by (induction outs) (auto simp: pairs_for_leg_eq split: option.splits)

lemma extract_group_leg_None: "extract_group_leg g = None \<longleftrightarrow> grp_flights g = []"
  by (auto simp: extract_group_leg_def Let_def split: list.splits)

lemma extract_group_leg_price:
  "extract_group_leg g = Some l \<Longrightarrow> leg_price l = (case grp_price g of None \<Rightarrow> 0 | Some p \<Rightarrow> p)"
  by (auto simp: extract_group_leg_def Let_def split: list.splits)

lemma length_map_filter_extract:
  "length (List.map_filter extract_group_leg gs) = length (filter (\<lambda>g. grp_flights g \<noteq> []) gs)"
proof (induction gs)
  case Nil
  then show ?case by simp
next
  case (Cons g gs)
  then show ?case
    using extract_group_leg_None [of g] by (cases "extract_group_leg g") auto
qed

lemma length_concat_const:
  "(\<And>x. x \<in> set xs \<Longrightarrow> length (f x) = n) \<Longrightarrow> length (concat (map f xs)) = length xs * n"
  by (induction xs) auto

lemma length_build_independent_pairs:
  "length (build_independent_pairs outs rets) =
     length (filter (\<lambda>g. grp_flights g \<noteq> []) (take 3 outs))
       * length (filter (\<lambda>g. grp_flights g \<noteq> []) (take 3 rets))"
  by (auto simp: build_independent_pairs_def pairs_loop_eq length_concat_const length_map_filter_extract)

lemma set_take_mono: "x \<in> set (take n xs) \<Longrightarrow> x \<in> set xs"
  by (rule in_set_takeD)

lemma in_map_filter_extract:
  "l \<in> set (List.map_filter extract_group_leg gs) \<longleftrightarrow> (\<exists>g \<in> set gs. extract_group_leg g = Some l)"
  by (induction gs) (auto split: option.splits)

lemma independent_pairs_type_aux:
  "r \<in> set (build_independent_pairs outs rets) \<longrightarrow> itinerary_type r = ''independent_one_way''"
  by (auto simp: build_independent_pairs_def pairs_loop_eq pair_result_def Let_def split: if_splits)

lemma in_map_filter_process:
  "r \<in> set (List.map_filter process_flight_group gs) \<longleftrightarrow> (\<exists>g \<in> set gs. process_flight_group g = Some r)"
  by (induction gs) (auto split: option.splits)

lemma length_filter_take3: "length (filter P (take 3 xs)) \<le> 3"
  by (rule order_trans [OF length_filter_le]) simp


lemma map_filter_extract_groups:
  "List.map_filter extract_group_leg gs
     = map (\<lambda>g. the (extract_group_leg g)) (filter (\<lambda>g. grp_flights g \<noteq> []) gs)"
proof (induction gs)
  case Nil
  then show ?case by (simp add: List.map_filter_simps)
next
  case (Cons g gs)
  then show ?case
    using extract_group_leg_None [of g]
    by (cases "extract_group_leg g") (auto simp: List.map_filter_simps)
qed

lemma build_independent_pairs_eq:
  "build_independent_pairs outs rets =
     concat (map (\<lambda>og. map (\<lambda>rg. pair_result (the (extract_group_leg og)) (the (extract_group_leg rg)))
                         (filter (\<lambda>g. grp_flights g \<noteq> []) (take 3 rets)))
               (filter (\<lambda>g. grp_flights g \<noteq> []) (take 3 outs)))"
proof (cases "outs = [] \<or> rets = []")
  case True
  then show ?thesis by (auto simp: build_independent_pairs_def)
next
  case False
  then show ?thesis
    by (simp add: build_independent_pairs_def pairs_loop_eq map_filter_extract_groups comp_def)
qed

lemma pair_result_prices:
  assumes "grp_flights og \<noteq> []" and "grp_flights rg \<noteq> []"
  shows "(\<lambda>r. (itinerary_type r, outbound_price r, return_price r, total_price r, price r))
           (pair_result (the (extract_group_leg og)) (the (extract_group_leg rg)))
         = (''independent_one_way'',
            Some (case grp_price og of None \<Rightarrow> 0 | Some p \<Rightarrow> p),
            Some (case grp_price rg of None \<Rightarrow> 0 | Some p \<Rightarrow> p),
            Some ((case grp_price og of None \<Rightarrow> 0 | Some p \<Rightarrow> p)
                  + (case grp_price rg of None \<Rightarrow> 0 | Some p \<Rightarrow> p)),
            (case grp_price og of None \<Rightarrow> 0 | Some p \<Rightarrow> p)
              + (case grp_price rg of None \<Rightarrow> 0 | Some p \<Rightarrow> p))"
proof -
  from assms obtain ol rl where ol: "extract_group_leg og = Some ol" and rl: "extract_group_leg rg = Some rl"
    using extract_group_leg_None [of og] extract_group_leg_None [of rg] by auto
  show ?thesis
    using extract_group_leg_price [OF ol] extract_group_leg_price [OF rl]
    by (simp add: ol rl pair_result_def Let_def)
qed

lemma build_independent_pairs_prices:
  "map (\<lambda>r. (itinerary_type r, outbound_price r, return_price r, total_price r, price r))
       (build_independent_pairs outs rets)
   = concat (map (\<lambda>og. map (\<lambda>rg. (''independent_one_way'',
                                  Some (case grp_price og of None \<Rightarrow> 0 | Some p \<Rightarrow> p),
                                  Some (case grp_price rg of None \<Rightarrow> 0 | Some p \<Rightarrow> p),
                                  Some ((case grp_price og of None \<Rightarrow> 0 | Some p \<Rightarrow> p)
                                        + (case grp_price rg of None \<Rightarrow> 0 | Some p \<Rightarrow> p)),
                                  (case grp_price og of None \<Rightarrow> 0 | Some p \<Rightarrow> p)
                                    + (case grp_price rg of None \<Rightarrow> 0 | Some p \<Rightarrow> p)))
                         (filter (\<lambda>g. grp_flights g \<noteq> []) (take 3 rets)))
               (filter (\<lambda>g. grp_flights g \<noteq> []) (take 3 outs)))"
  unfolding build_independent_pairs_eq map_concat map_map comp_def
  by (intro arg_cong [where f = concat] map_cong refl) (simp add: pair_result_prices)

text \<open>
  C8. Whatever the outbound and return groups of an independent-pair unit,
  \<^verbatim>\<open>_build_independent_pairs\<close> yields at most nine results: exactly one for every pair of a
  group with segments among the first three outbound groups and a group with segments
  among the first three return groups, in the order of the outbound groups and, for one
  outbound group, in the order of the return groups. Each result is tagged
  \<^verbatim>\<open>independent_one_way\<close>, and its total price is the outbound price plus the return
  price, an absent price counting as 0.
\<close>

theorem independent_pairs_bounded:
  "build_independent_pairs outs rets =
     concat (map (\<lambda>og. map (\<lambda>rg. pair_result (the (extract_group_leg og)) (the (extract_group_leg rg)))
                         (filter (\<lambda>g. grp_flights g \<noteq> []) (take 3 rets)))
               (filter (\<lambda>g. grp_flights g \<noteq> []) (take 3 outs)))
   \<and> map (\<lambda>r. (itinerary_type r, outbound_price r, return_price r, total_price r, price r))
         (build_independent_pairs outs rets)
       = concat (map (\<lambda>og. map (\<lambda>rg. (''independent_one_way'',
                                  Some (case grp_price og of None \<Rightarrow> 0 | Some p \<Rightarrow> p),
                                  Some (case grp_price rg of None \<Rightarrow> 0 | Some p \<Rightarrow> p),
                                  Some ((case grp_price og of None \<Rightarrow> 0 | Some p \<Rightarrow> p)
                                        + (case grp_price rg of None \<Rightarrow> 0 | Some p \<Rightarrow> p)),
                                  (case grp_price og of None \<Rightarrow> 0 | Some p \<Rightarrow> p)
                                    + (case grp_price rg of None \<Rightarrow> 0 | Some p \<Rightarrow> p)))
                             (filter (\<lambda>g. grp_flights g \<noteq> []) (take 3 rets)))
                   (filter (\<lambda>g. grp_flights g \<noteq> []) (take 3 outs)))
   \<and> length (build_independent_pairs outs rets) \<le> 9
   \<and> length (build_independent_pairs outs rets) =
       length (filter (\<lambda>g. grp_flights g \<noteq> []) (take 3 outs))
         * length (filter (\<lambda>g. grp_flights g \<noteq> []) (take 3 rets))
   \<and> (\<forall>r \<in> set (build_independent_pairs outs rets).
         itinerary_type r = ''independent_one_way''
         \<and> (\<exists>og \<in> set (take 3 outs). \<exists>rg \<in> set (take 3 rets).
               grp_flights og \<noteq> [] \<and> grp_flights rg \<noteq> []
               \<and> outbound_price r = Some (case grp_price og of None \<Rightarrow> 0 | Some p \<Rightarrow> p)
               \<and> return_price r = Some (case grp_price rg of None \<Rightarrow> 0 | Some p \<Rightarrow> p)
               \<and> total_price r = Some ((case grp_price og of None \<Rightarrow> 0 | Some p \<Rightarrow> p)
                                        + (case grp_price rg of None \<Rightarrow> 0 | Some p \<Rightarrow> p))
               \<and> price r = (case grp_price og of None \<Rightarrow> 0 | Some p \<Rightarrow> p)
                             + (case grp_price rg of None \<Rightarrow> 0 | Some p \<Rightarrow> p)))"
proof (intro conjI ballI)
  show "build_independent_pairs outs rets =
     concat (map (\<lambda>og. map (\<lambda>rg. pair_result (the (extract_group_leg og)) (the (extract_group_leg rg)))
                         (filter (\<lambda>g. grp_flights g \<noteq> []) (take 3 rets)))
               (filter (\<lambda>g. grp_flights g \<noteq> []) (take 3 outs)))"
    by (rule build_independent_pairs_eq)
next
  show "map (\<lambda>r. (itinerary_type r, outbound_price r, return_price r, total_price r, price r))
         (build_independent_pairs outs rets)
       = concat (map (\<lambda>og. map (\<lambda>rg. (''independent_one_way'',
                                  Some (case grp_price og of None \<Rightarrow> 0 | Some p \<Rightarrow> p),
                                  Some (case grp_price rg of None \<Rightarrow> 0 | Some p \<Rightarrow> p),
                                  Some ((case grp_price og of None \<Rightarrow> 0 | Some p \<Rightarrow> p)
                                        + (case grp_price rg of None \<Rightarrow> 0 | Some p \<Rightarrow> p)),
                                  (case grp_price og of None \<Rightarrow> 0 | Some p \<Rightarrow> p)
                                    + (case grp_price rg of None \<Rightarrow> 0 | Some p \<Rightarrow> p)))
                             (filter (\<lambda>g. grp_flights g \<noteq> []) (take 3 rets)))
                   (filter (\<lambda>g. grp_flights g \<noteq> []) (take 3 outs)))"
    by (rule build_independent_pairs_prices)
next
  have "length (filter (\<lambda>g. grp_flights g \<noteq> []) (take 3 outs))
          * length (filter (\<lambda>g. grp_flights g \<noteq> []) (take 3 rets)) \<le> 3 * 3"
    by (intro mult_le_mono length_filter_take3)
  then show "length (build_independent_pairs outs rets) \<le> 9"
    by (simp add: length_build_independent_pairs)
next
  show "length (build_independent_pairs outs rets) =
       length (filter (\<lambda>g. grp_flights g \<noteq> []) (take 3 outs))
         * length (filter (\<lambda>g. grp_flights g \<noteq> []) (take 3 rets))"
    by (rule length_build_independent_pairs)
next
  fix r assume r: "r \<in> set (build_independent_pairs outs rets)"
  then obtain ol rl where
    ol: "ol \<in> set (List.map_filter extract_group_leg (take 3 outs))" and
    rl: "rl \<in> set (List.map_filter extract_group_leg (take 3 rets))" and
    req: "r = pair_result ol rl"
    by (auto simp: build_independent_pairs_def pairs_loop_eq split: if_splits)
  show "itinerary_type r = ''independent_one_way''"
    by (simp add: req pair_result_def Let_def)
  from ol obtain og where og: "og \<in> set (take 3 outs)" "extract_group_leg og = Some ol"
    by (auto simp: in_map_filter_extract)
  from rl obtain rg where rg: "rg \<in> set (take 3 rets)" "extract_group_leg rg = Some rl"
    by (auto simp: in_map_filter_extract)
  have ne: "grp_flights og \<noteq> []" "grp_flights rg \<noteq> []"
    using og(2) rg(2) extract_group_leg_None [of og] extract_group_leg_None [of rg] by auto
  show "\<exists>og \<in> set (take 3 outs). \<exists>rg \<in> set (take 3 rets).
               grp_flights og \<noteq> [] \<and> grp_flights rg \<noteq> []
               \<and> outbound_price r = Some (case grp_price og of None \<Rightarrow> 0 | Some p \<Rightarrow> p)
               \<and> return_price r = Some (case grp_price rg of None \<Rightarrow> 0 | Some p \<Rightarrow> p)
               \<and> total_price r = Some ((case grp_price og of None \<Rightarrow> 0 | Some p \<Rightarrow> p)
                                        + (case grp_price rg of None \<Rightarrow> 0 | Some p \<Rightarrow> p))
               \<and> price r = (case grp_price og of None \<Rightarrow> 0 | Some p \<Rightarrow> p)
                             + (case grp_price rg of None \<Rightarrow> 0 | Some p \<Rightarrow> p)"
    using og(1) rg(1) ne extract_group_leg_price [OF og(2)] extract_group_leg_price [OF rg(2)]
    by (intro bexI [of _ og] bexI [of _ rg]) (simp_all add: req pair_result_def Let_def)
qed

theorem independent_pairs_bounded_witness:
  "map (\<lambda>r. (flight_numbers r, return_flight_numbers r, total_price r))
     (build_independent_pairs
        [ex_out ''Frontier'' ''F9 1001'' 99, ex_out ''Spirit'' ''NK 210'' 105,
         ex_out ''Delta'' ''DL 330'' 180, ex_out ''United'' ''UA 77'' 190,
         ex_out ''American'' ''AA 12'' 201]
        [ex_ret ''Frontier'' ''F9 1002'' 89, ex_ret ''Spirit'' ''NK 211'' 95,
         ex_ret ''Delta'' ''DL 331'' 170, ex_ret ''United'' ''UA 78'' 175])
    = [(''F9 1001'', Some ''F9 1002'', Some 188), (''F9 1001'', Some ''NK 211'', Some 194),
       (''F9 1001'', Some ''DL 331'', Some 269),
       (''NK 210'', Some ''F9 1002'', Some 194), (''NK 210'', Some ''NK 211'', Some 200),
       (''NK 210'', Some ''DL 331'', Some 275),
       (''DL 330'', Some ''F9 1002'', Some 269), (''DL 330'', Some ''NK 211'', Some 275),
       (''DL 330'', Some ''DL 331'', Some 350)]
   \<and> map (\<lambda>r. (flight_numbers r, return_flight_numbers r, total_price r))
       (build_independent_pairs
          [ex_out ''Frontier'' ''F9 1001'' 99, ex_group [] 50, ex_out ''Spirit'' ''NK 210'' 105,
           ex_out ''Delta'' ''DL 330'' 180]
          [ex_ret ''Frontier'' ''F9 1002'' 89, ex_ret ''Spirit'' ''NK 211'' 95])
    = [(''F9 1001'', Some ''F9 1002'', Some 188), (''F9 1001'', Some ''NK 211'', Some 194),
       (''NK 210'', Some ''F9 1002'', Some 194), (''NK 210'', Some ''NK 211'', Some 200)]"
  using independent_pairs_bounded
    [of "[ex_out ''Frontier'' ''F9 1001'' 99, ex_out ''Spirit'' ''NK 210'' 105,
          ex_out ''Delta'' ''DL 330'' 180, ex_out ''United'' ''UA 77'' 190,
          ex_out ''American'' ''AA 12'' 201]"
        "[ex_ret ''Frontier'' ''F9 1002'' 89, ex_ret ''Spirit'' ''NK 211'' 95,
          ex_ret ''Delta'' ''DL 331'' 170, ex_ret ''United'' ''UA 78'' 175]",
     THEN conjunct1]
    independent_pairs_bounded
    [of "[ex_out ''Frontier'' ''F9 1001'' 99, ex_group [] 50, ex_out ''Spirit'' ''NK 210'' 105,
          ex_out ''Delta'' ''DL 330'' 180]"
        "[ex_ret ''Frontier'' ''F9 1002'' 89, ex_ret ''Spirit'' ''NK 211'' 95]",
     THEN conjunct1]
  by (simp add: ex_out_def ex_ret_def ex_group_def ex_segment_def extract_group_leg_def
        pair_result_def Let_def add_new_nonempty_def airport_id_def airport_time_def)

subsection \<open>Deduplication\<close>


lemma foldl_keep_first:
  "foldl keep_first (seen, acc) rs = (seen \<union> dedup_key ` set rs, acc @ firsts seen rs)"
  by (induction rs arbitrary: seen acc) (auto simp: keep_first_def)

lemma firsts_append:
  "firsts seen (xs @ ys) = firsts seen xs @ firsts (seen \<union> dedup_key ` set xs) ys"
  by (induction xs arbitrary: seen) (auto simp: insert_absorb)

lemma process_response_firsts:
  "process_response (seen, acc) r =
     (seen \<union> dedup_key ` set (results_of_response r), acc @ firsts seen (results_of_response r))"
  by (simp add: process_response_def foldl_keep_first)

lemma foldl_process_response:
  "foldl process_response (seen, acc) rs =
     (seen \<union> dedup_key ` set (concat (map results_of_response rs)),
      acc @ firsts seen (concat (map results_of_response rs)))"
proof (induction rs arbitrary: seen acc)
  case Nil
  then show ?case by simp
next
  case (Cons r rs)
  show ?case
    by (simp add: process_response_firsts Cons.IH firsts_append Un_assoc image_Un)
qed

lemma process_results_firsts:
  "process_results rs = firsts {} (concat (map results_of_response rs))"
  by (simp add: process_results_def foldl_process_response)








lemma set_firsts_subset: "set (firsts seen rs) \<subseteq> set rs"
  by (induction rs arbitrary: seen) auto

lemma firsts_twice:
  "firsts {} [x, x] = [x]"
  by simp










text \<open>
  C3, as the claim states it, fails: a key tuple can lose its first occurrence. The key
  that the code compares is not the tuple but its rendering as one text,
  \<^verbatim>\<open>f"{itinerary_type}|{flight_numbers}|{depart_time}|{return_flight_numbers}|{return_depart_time}"\<close>,
  and two different tuples can render the same text. A response with two groups, the
  first with flight number \<^verbatim>\<open>F9 1\<close> and departure time \<^verbatim>\<open>2026-03-10|06:30\<close>, the second with
  flight number \<^verbatim>\<open>F9 1|2026-03-10\<close> and departure time \<^verbatim>\<open>06:30\<close>: the two results have
  different key tuples, and only the first is returned.
\<close>

theorem process_results_dedup_counterexample:
  "map (\<lambda>r. (itinerary_type r, flight_numbers r, depart_time r,
              return_flight_numbers r, return_depart_time r))
     (results_of_response (ApiResponse (ex_response
        [ex_group [ex_segment ''Frontier'' ''F9 1'' ''AUS'' ''2026-03-10|06:30'' ''LAX'' ''2026-03-10 08:12''] 99,
         ex_group [ex_segment ''Frontier'' ''F9 1|2026-03-10'' ''AUS'' ''06:30'' ''LAX'' ''2026-03-10 08:12''] 120])))
   = [(''round_trip'', ''F9 1'', ''2026-03-10|06:30'', None, None),
      (''round_trip'', ''F9 1|2026-03-10'', ''06:30'', None, None)]
   \<and> map (\<lambda>r. (itinerary_type r, flight_numbers r, depart_time r,
                  return_flight_numbers r, return_depart_time r, price r))
       (process_results [ApiResponse (ex_response
        [ex_group [ex_segment ''Frontier'' ''F9 1'' ''AUS'' ''2026-03-10|06:30'' ''LAX'' ''2026-03-10 08:12''] 99,
         ex_group [ex_segment ''Frontier'' ''F9 1|2026-03-10'' ''AUS'' ''06:30'' ''LAX'' ''2026-03-10 08:12''] 120])])
   = [(''round_trip'', ''F9 1'', ''2026-03-10|06:30'', None, None, 99)]"
  by (simp add: process_results_firsts results_of_response_def ex_response_def ex_group_def
        ex_segment_def process_flight_group_def Let_def List.map_filter_simps dedup_key_def str_opt_def
        add_new_nonempty_def airport_id_def airport_time_def opt_join_def)




subsection \<open>Itinerary types\<close>

lemma process_flight_group_type:
  "process_flight_group g = Some r \<Longrightarrow> itinerary_type r = ''round_trip''"
  by (auto simp: process_flight_group_def Let_def split: list.splits)

lemma build_independent_pairs_type:
  "r \<in> set (build_independent_pairs outs rets) \<Longrightarrow> itinerary_type r = ''independent_one_way''"
  using independent_pairs_type_aux [of r outs rets] by simp

lemma results_of_response_type:
  "r \<in> set (results_of_response resp) \<Longrightarrow>
     itinerary_type r = ''round_trip'' \<or> itinerary_type r = ''independent_one_way''"
  by (cases resp)
     (auto simp: results_of_response_def in_map_filter_process
           dest: process_flight_group_type build_independent_pairs_type)

lemma dedup_key_type:
  assumes "itinerary_type a = ''round_trip'' \<or> itinerary_type a = ''independent_one_way''"
    and "itinerary_type b = ''round_trip'' \<or> itinerary_type b = ''independent_one_way''"
    and "dedup_key a = dedup_key b"
  shows "itinerary_type a = itinerary_type b"
  using assms by (auto simp: dedup_key_def)

text \<open>
  C10. A result made from a plain flight group has the itinerary type \<^verbatim>\<open>round_trip\<close>,
  whatever search returned the group; so the results of the normaliser carry one of the
  two types \<^verbatim>\<open>round_trip\<close> and \<^verbatim>\<open>independent_one_way\<close>. The type is the first
  component of the deduplication key: two results that the responses yield with the same
  key have the same type.
\<close>

theorem itinerary_type_values:
  "(process_flight_group g = Some r \<longrightarrow> itinerary_type r = ''round_trip'')
   \<and> (\<forall>x \<in> set (process_results rs).
         itinerary_type x = ''round_trip'' \<or> itinerary_type x = ''independent_one_way'')
   \<and> prefix (itinerary_type y @ ''|'') (dedup_key y)
   \<and> (\<forall>a \<in> set (concat (map results_of_response rs)).
       \<forall>b \<in> set (concat (map results_of_response rs)).
         dedup_key a = dedup_key b \<longrightarrow> itinerary_type a = itinerary_type b)"
proof (intro conjI ballI impI)
  show "process_flight_group g = Some r \<Longrightarrow> itinerary_type r = ''round_trip''"
    by (rule process_flight_group_type)
  show "prefix (itinerary_type y @ ''|'') (dedup_key y)"
    by (simp add: dedup_key_def)
  have all: "\<And>x. x \<in> set (concat (map results_of_response rs)) \<Longrightarrow>
      itinerary_type x = ''round_trip'' \<or> itinerary_type x = ''independent_one_way''"
    using results_of_response_type by auto
  {
    fix x assume "x \<in> set (process_results rs)"
    then have "x \<in> set (concat (map results_of_response rs))"
      using set_firsts_subset [of "{}" "concat (map results_of_response rs)"]
      by (auto simp: process_results_firsts)
    then show "itinerary_type x = ''round_trip'' \<or> itinerary_type x = ''independent_one_way''"
      by (rule all)
  }
  {
    fix a b
    assume "a \<in> set (concat (map results_of_response rs))"
      "b \<in> set (concat (map results_of_response rs))" "dedup_key a = dedup_key b"
    then show "itinerary_type a = itinerary_type b"
      using dedup_key_type [of a b] all by blast
  }
qed

theorem itinerary_type_values_witness:
  "map itinerary_type
     (process_results
        [ApiResponse (ex_response [ex_out ''Frontier'' ''F9 1001'' 99]),
         IndependentOneWay
           \<lparr> ci_departure_id = ''AUS'', ci_arrival_id = ''LAX'',
             ci_outbound_date = ''2026-03-10'', ci_return_date = Some ''2026-03-12'' \<rparr>
           [ex_out ''Frontier'' ''F9 1001'' 99] [ex_ret ''Spirit'' ''NK 211'' 95]])
   = [''round_trip'', ''independent_one_way'']"
  using itinerary_type_values
    [of "ex_out ''Frontier'' ''F9 1001'' 99" undefined
        "[ApiResponse (ex_response [ex_out ''Frontier'' ''F9 1001'' 99]),
          IndependentOneWay
            \<lparr> ci_departure_id = ''AUS'', ci_arrival_id = ''LAX'',
              ci_outbound_date = ''2026-03-10'', ci_return_date = Some ''2026-03-12'' \<rparr>
            [ex_out ''Frontier'' ''F9 1001'' 99] [ex_ret ''Spirit'' ''NK 211'' 95]]"]
  by (simp add: process_results_firsts results_of_response_def ex_response_def
        process_flight_group_def build_independent_pairs_def extract_group_leg_def
        pair_result_def dedup_key_def str_opt_def Let_def opt_join_def add_new_nonempty_def
        ex_out_def ex_ret_def ex_group_def ex_segment_def airport_time_def)

section \<open>Properties of the post-filters\<close>

subsection \<open>The airline preference\<close>



lemma airline_matches_flag [simp]:
  "airline_matches (r\<lparr>preferred := b\<rparr>) needle leg = airline_matches r needle leg"
  by (simp add: airline_matches_def)








subsection \<open>The arrival deadline\<close>

lemma dt_greater_same_kind:
  "is_aware a = is_aware b \<Longrightarrow> dt_greater a b = Inr (dt_seconds a > dt_seconds b)"
  by (cases a; cases b) (simp_all add: dt_greater_def is_aware_def dt_seconds_def)

lemma dt_greater_mixed:
  "is_aware a \<noteq> is_aware b \<Longrightarrow> dt_greater a b = Inl TypeError"
  by (cases a; cases b) (simp_all add: dt_greater_def is_aware_def)

lemma keep_after_check_same_kind:
  assumes "\<And>a. fromisoformat ts = Some a \<Longrightarrow> is_aware a = is_aware deadline"
  shows "keep_after_check fromisoformat deadline ts =
           Inr (\<forall>a. fromisoformat ts = Some a \<longrightarrow> dt_seconds a \<le> dt_seconds deadline)"
proof (cases "fromisoformat ts")
  case None
  then show ?thesis by (simp add: keep_after_check_def)
next
  case (Some a)
  with assms have "is_aware a = is_aware deadline" by simp
  with Some show ?thesis
    by (simp add: keep_after_check_def dt_greater_same_kind not_less)
qed

lemma keep_result_same_kind:
  assumes out: "\<And>a. fromisoformat (arrive_time r) = Some a \<Longrightarrow> is_aware a = is_aware deadline"
    and ret: "\<And>ra a. return_arrive_time r = Some ra \<Longrightarrow> fromisoformat ra = Some a
                \<Longrightarrow> is_aware a = is_aware deadline"
  shows "keep_result fromisoformat leg deadline r =
     Inr (((leg = leg_outbound \<or> leg = leg_any) \<and> arrive_time r \<noteq> []
            \<longrightarrow> (\<forall>a. fromisoformat (arrive_time r) = Some a \<longrightarrow> dt_seconds a \<le> dt_seconds deadline))
          \<and> ((leg = leg_return \<or> leg = leg_any)
            \<longrightarrow> (\<forall>ra a. return_arrive_time r = Some ra \<and> ra \<noteq> [] \<and> fromisoformat ra = Some a
                   \<longrightarrow> dt_seconds a \<le> dt_seconds deadline)))"
proof (cases "return_arrive_time r")
  case None
  then show ?thesis
    by (simp add: keep_result_def keep_after_check_same_kind [of fromisoformat "arrive_time r" deadline, OF out])
next
  case (Some ra)
  have k: "keep_after_check fromisoformat deadline ra =
           Inr (\<forall>a. fromisoformat ra = Some a \<longrightarrow> dt_seconds a \<le> dt_seconds deadline)"
    by (rule keep_after_check_same_kind) (rule ret [OF Some])
  show ?thesis
    using Some
    by (auto simp: keep_result_def k
          keep_after_check_same_kind [of fromisoformat "arrive_time r" deadline, OF out])
qed

lemma arrival_filter_same_kind:
  assumes "\<forall>r \<in> set rs. \<forall>a.
             (fromisoformat (arrive_time r) = Some a
              \<or> (\<exists>ra. return_arrive_time r = Some ra \<and> fromisoformat ra = Some a))
             \<longrightarrow> is_aware a = is_aware deadline"
  shows "arrival_filter fromisoformat leg deadline rs =
     Inr (filter (\<lambda>r.
            ((leg = leg_outbound \<or> leg = leg_any) \<and> arrive_time r \<noteq> []
               \<longrightarrow> (\<forall>a. fromisoformat (arrive_time r) = Some a \<longrightarrow> dt_seconds a \<le> dt_seconds deadline))
            \<and> ((leg = leg_return \<or> leg = leg_any)
               \<longrightarrow> (\<forall>ra a. return_arrive_time r = Some ra \<and> ra \<noteq> [] \<and> fromisoformat ra = Some a
                      \<longrightarrow> dt_seconds a \<le> dt_seconds deadline))) rs)"
  using assms
proof (induction rs)
  case Nil
  show ?case by simp
next
  case (Cons r rs)
  have k: "keep_result fromisoformat leg deadline r =
     Inr (((leg = leg_outbound \<or> leg = leg_any) \<and> arrive_time r \<noteq> []
            \<longrightarrow> (\<forall>a. fromisoformat (arrive_time r) = Some a \<longrightarrow> dt_seconds a \<le> dt_seconds deadline))
          \<and> ((leg = leg_return \<or> leg = leg_any)
            \<longrightarrow> (\<forall>ra a. return_arrive_time r = Some ra \<and> ra \<noteq> [] \<and> fromisoformat ra = Some a
                   \<longrightarrow> dt_seconds a \<le> dt_seconds deadline)))"
    using Cons.prems by (intro keep_result_same_kind) auto
  have t: "arrival_filter fromisoformat leg deadline rs =
     Inr (filter (\<lambda>r.
            ((leg = leg_outbound \<or> leg = leg_any) \<and> arrive_time r \<noteq> []
               \<longrightarrow> (\<forall>a. fromisoformat (arrive_time r) = Some a \<longrightarrow> dt_seconds a \<le> dt_seconds deadline))
            \<and> ((leg = leg_return \<or> leg = leg_any)
               \<longrightarrow> (\<forall>ra a. return_arrive_time r = Some ra \<and> ra \<noteq> [] \<and> fromisoformat ra = Some a
                      \<longrightarrow> dt_seconds a \<le> dt_seconds deadline))) rs)"
    using Cons.prems by (intro Cons.IH) auto
  show ?case
    unfolding arrival_filter.simps k t by simp
qed

text \<open>
  What holds of the \<^verbatim>\<open>arrival_before\<close> filter where Python can order the time stamps:
  when the deadline parses and every arrival time stamp that parses is of the kind of
  the deadline (both naive or both aware), the filter returns, and keeps a result if and
  only if every checked leg whose arrival parses arrives at or before the deadline. A
  time stamp that is empty, absent or rejected by the parser removes nothing.
\<close>

lemma arrival_before_keeps:
  assumes "filter_type pf = arrival_before"
    and "fromisoformat (pf_value pf) = Some deadline"
    and "\<forall>r \<in> set rs. \<forall>a.
           (fromisoformat (arrive_time r) = Some a
            \<or> (\<exists>ra. return_arrive_time r = Some ra \<and> fromisoformat ra = Some a))
           \<longrightarrow> is_aware a = is_aware deadline"
  shows "apply_post_filters fromisoformat rs [pf] =
     Inr (filter (\<lambda>r.
            ((pf_leg pf = leg_outbound \<or> pf_leg pf = leg_any) \<and> arrive_time r \<noteq> []
               \<longrightarrow> (\<forall>a. fromisoformat (arrive_time r) = Some a \<longrightarrow> dt_seconds a \<le> dt_seconds deadline))
            \<and> ((pf_leg pf = leg_return \<or> pf_leg pf = leg_any)
               \<longrightarrow> (\<forall>ra a. return_arrive_time r = Some ra \<and> ra \<noteq> [] \<and> fromisoformat ra = Some a
                      \<longrightarrow> dt_seconds a \<le> dt_seconds deadline))) rs)"
  using assms(1,2) by (simp add: arrival_filter_same_kind [OF assms(3)])

text \<open>
  The deadline \<^verbatim>\<open>2026-03-30T08:00\<close>: an arrival at \<^verbatim>\<open>2026-03-30T08:00:00\<close> is kept, one at
  \<^verbatim>\<open>2026-03-30T08:00:01\<close> is removed.
\<close>

lemma arrival_before_boundary:
  "apply_post_filters ex_fromisoformat
     [ex_result ''Delta'' ''DL 330'' ''2026-03-30T08:00:00'' None,
      ex_result ''United'' ''UA 77'' ''2026-03-30T08:00:01'' None]
     [\<lparr> filter_type = arrival_before, pf_value = ''2026-03-30T08:00'', pf_leg = leg_any \<rparr>]
   = Inr [ex_result ''Delta'' ''DL 330'' ''2026-03-30T08:00:00'' None]"
  by (simp add: keep_result_def keep_after_check_def dt_greater_def ex_fromisoformat_def ex_result_def)

text \<open>
  C6. The claim holds where Python can order the time stamps (\<open>arrival_before_keeps\<close>).
  It fails for a deadline with a UTC offset: \<^verbatim>\<open>2026-03-30T08:00+00:00\<close> parses as an
  aware \<^verbatim>\<open>datetime\<close>, the arrival \<^verbatim>\<open>2026-03-30 07:15\<close> of a result parses as a naive one,
  the comparison \<^verbatim>\<open>arr > deadline\<close> raises \<^verbatim>\<open>TypeError\<close>, which \<^verbatim>\<open>except ValueError\<close> does
  not catch: \<^verbatim>\<open>apply_post_filters\<close> aborts instead of keeping the result.
\<close>

theorem arrival_before_type_error:
  "apply_post_filters ex_fromisoformat
     [ex_result ''Delta'' ''DL 330'' ''2026-03-30 07:15'' None]
     [\<lparr> filter_type = arrival_before, pf_value = ''2026-03-30T08:00+00:00'', pf_leg = leg_outbound \<rparr>]
   = Inl TypeError"
  by (simp add: keep_result_def keep_after_check_def dt_greater_def ex_fromisoformat_def ex_result_def)

theorem arrival_before_type_error_witness:
  "apply_post_filters ex_fromisoformat
     [ex_result ''Delta'' ''DL 330'' ''2026-03-30 07:15'' None]
     [\<lparr> filter_type = arrival_before, pf_value = ''2026-03-30T08:00+00:00'', pf_leg = leg_outbound \<rparr>]
   \<noteq> Inr [ex_result ''Delta'' ''DL 330'' ''2026-03-30 07:15'' None]"
  using arrival_before_type_error by simp

section \<open>Properties of the fetcher\<close>

subsection \<open>The cache key\<close>


lemma sorted_filter_key:
  "sorted (map f xs) \<Longrightarrow> sorted (map f (filter P xs))"
  by (induction xs) auto

lemma distinct_filter_key:
  "distinct (map f xs) \<Longrightarrow> distinct (map f (filter P xs))"
  by (induction xs) auto

lemma distinct_map_sort_key:
  "distinct (map f (sort_key f xs)) = distinct (map f xs)"
proof -
  have "mset (map f (sort_key f xs)) = mset (map f xs)" by simp
  then show ?thesis by (rule mset_eq_imp_distinct_iff)
qed

lemma stable_items_unique:
  assumes "distinct (map fst p)" and "distinct (map fst q)"
    and "set (filter P p) = set (filter P q)"
  shows "filter P (sort_key fst p) = filter P (sort_key fst q)"
proof (rule map_sorted_distinct_set_unique [where f = fst])
  let ?a = "filter P (sort_key fst p)" and ?b = "filter P (sort_key fst q)"
  show eq: "set ?a = set ?b" using assms(3) by simp
  show da: "distinct (map fst ?a)"
    by (rule distinct_filter_key) (simp add: distinct_map_sort_key assms(1))
  show "distinct (map fst ?b)"
    by (rule distinct_filter_key) (simp add: distinct_map_sort_key assms(2))
  show "sorted (map fst ?a)" by (rule sorted_filter_key) simp
  show "sorted (map fst ?b)" by (rule sorted_filter_key) simp
  from da have "inj_on fst (set ?a)" by (simp add: distinct_map)
  with eq show "inj_on fst (set ?a \<union> set ?b)" by simp
qed

text \<open>
  C4. Two parameter dictionaries (the keys of each are distinct) that hold the same
  items apart from \<^verbatim>\<open>api_key\<close>, in whatever order, and that may differ in the value of
  \<^verbatim>\<open>api_key\<close> or in its presence, have the same cache key.
\<close>

theorem cache_key_invariant:
  assumes "distinct (map fst p)" and "distinct (map fst q)"
    and "set (filter (\<lambda>(k, v). k \<noteq> ''api_key'') p) = set (filter (\<lambda>(k, v). k \<noteq> ''api_key'') q)"
  shows "cache_key e p = cache_key e q"
  using stable_items_unique [OF assms] by (simp add: cache_key_def)

theorem cache_key_invariant_witness:
  "cache_key (ex_env (always Raises))
     [(''engine'', ''google_flights''), (''api_key'', ''k-123''), (''departure_id'', ''AUS''),
      (''arrival_id'', ''LAX''), (''outbound_date'', ''2026-03-10'')]
   = cache_key (ex_env (always Raises))
     [(''outbound_date'', ''2026-03-10''), (''arrival_id'', ''LAX''), (''api_key'', ''k-999''),
      (''engine'', ''google_flights''), (''departure_id'', ''AUS'')]"
  by (rule cache_key_invariant) (simp_all, auto)


subsection \<open>Lookups that find nothing\<close>


lemma load_usage_calls [simp]: "load_usage e (s\<lparr>calls := c\<rparr>) = load_usage e s"
  by (simp add: load_usage_def split: option.splits)

lemma cache_lookup_calls [simp]: "cache_lookup e (s\<lparr>calls := c\<rparr>) ps = cache_lookup e s ps"
  by (simp add: cache_lookup_def split: option.splits)

text \<open>A miss stays a miss while the cache file is the same and the clock does not go back.\<close>

lemma cache_lookup_miss_later:
  assumes "cache_lookup e s ps = None" and "cache_file s2 = cache_file s" and "now s \<le> now s2"
  shows "cache_lookup e s2 ps = None"
proof (cases "NO_CACHE e")
  case True
  then show ?thesis by (simp add: cache_lookup_def)
next
  case False
  show ?thesis
  proof (cases "cache_file s (cache_key e ps)")
    case None
    with False assms(2) show ?thesis by (simp add: cache_lookup_def)
  next
    case (Some entry)
    show ?thesis
    proof (cases "(now s - ce_timestamp entry) / 3600 > SERPAPI_CACHE_TTL_HOURS")
      case True
      with assms(3) have "(now s2 - ce_timestamp entry) / 3600 > SERPAPI_CACHE_TTL_HOURS"
        by (simp add: field_simps)
      with False Some assms(2) show ?thesis by (simp add: cache_lookup_def)
    next
      case stale: False
      with False Some assms(1) have "ce_response entry = None"
        by (simp add: cache_lookup_def)
      with False Some assms(2) show ?thesis by (simp add: cache_lookup_def)
    qed
  qed
qed

lemma load_usage_later:
  assumes "usage_file s2 = usage_file s" and "month_of e (now s2) = month_of e (now s)"
  shows "load_usage e s2 = load_usage e s"
  using assms by (simp add: load_usage_def split: option.splits)

lemma fetch_one_way_groups_sends:
  assumes "cache_lookup e s ps = None" and "u_count (load_usage e s) < SERPAPI_MONTHLY_LIMIT"
  shows "\<exists>groups s1. fetch_one_way_groups e s ps = (groups, s1) \<and> calls s1 = calls s @ [ps]"
proof (cases "google_search e (calls s) ps")
  case Raises
  with assms show ?thesis by (simp add: fetch_one_way_groups_def send_request_def)
next
  case (Returns results)
  show ?thesis
  proof (cases "error_of results = None \<and> all_groups results \<noteq> []")
    case True
    with assms Returns show ?thesis
      by (simp add: fetch_one_way_groups_def send_request_def cache_store_def increment_usage_def Let_def)
  next
    case False
    with assms Returns show ?thesis
      by (auto simp: fetch_one_way_groups_def send_request_def Let_def)
  qed
qed

lemma fetch_one_way_groups_empty:
  assumes "cache_lookup e s ps = None" and "u_count (load_usage e s) < SERPAPI_MONTHLY_LIMIT"
    and "google_search e (calls s) ps = Returns results"
    and "error_of results = None" and "all_groups results = []"
  shows "fetch_one_way_groups e s ps = ([], s\<lparr>calls := calls s @ [ps]\<rparr>)"
  using assms by (simp add: fetch_one_way_groups_def send_request_def)

lemma lookup_return_group_sends:
  assumes "cache_lookup e s (AList.update ''departure_token'' token base) = None"
    and "u_count (load_usage e s) < SERPAPI_MONTHLY_LIMIT"
  shows "\<exists>g s1. lookup_return_group e s base token = (g, s1)
           \<and> calls s1 = calls s @ [AList.update ''departure_token'' token base]"
proof (cases "google_search e (calls s) (AList.update ''departure_token'' token base)")
  case Raises
  with assms show ?thesis by (simp add: lookup_return_group_def send_request_def Let_def)
next
  case (Returns results)
  show ?thesis
  proof (cases "all_groups results")
    case Nil
    with assms Returns show ?thesis
      by (simp add: lookup_return_group_def send_request_def Let_def)
  next
    case (Cons g gs)
    with assms Returns show ?thesis
      by (simp add: lookup_return_group_def send_request_def cache_store_def increment_usage_def Let_def)
  qed
qed

lemma lookup_return_group_empty:
  assumes "cache_lookup e s (AList.update ''departure_token'' token base) = None"
    and "u_count (load_usage e s) < SERPAPI_MONTHLY_LIMIT"
    and "google_search e (calls s) (AList.update ''departure_token'' token base) = Returns results"
    and "error_of results = None" and "all_groups results = []"
  shows "lookup_return_group e s base token
           = (None, s\<lparr>calls := calls s @ [AList.update ''departure_token'' token base]\<rparr>)"
  using assms by (simp add: lookup_return_group_def send_request_def Let_def)

lemma later_world:
  assumes "cache_lookup e s ps = None" and "u_count (load_usage e s) < SERPAPI_MONTHLY_LIMIT"
    and "now s \<le> t" and "month_of e t = month_of e (now s)"
  shows "cache_lookup e (s\<lparr>calls := c, now := t\<rparr>) ps = None"
    and "u_count (load_usage e (s\<lparr>calls := c, now := t\<rparr>)) < SERPAPI_MONTHLY_LIMIT"
proof -
  show "cache_lookup e (s\<lparr>calls := c, now := t\<rparr>) ps = None"
    by (rule cache_lookup_miss_later [OF assms(1)]) (simp_all add: assms(3))
  have "load_usage e (s\<lparr>calls := c, now := t\<rparr>) = load_usage e s"
    by (rule load_usage_later) (simp_all add: assms(4))
  with assms(2) show "u_count (load_usage e (s\<lparr>calls := c, now := t\<rparr>)) < SERPAPI_MONTHLY_LIMIT"
    by simp
qed

lemma fetch_one_way_groups_again:
  assumes "cache_lookup e s ps = None" and "u_count (load_usage e s) < SERPAPI_MONTHLY_LIMIT"
    and "now s \<le> t" and "month_of e t = month_of e (now s)"
  shows "calls (snd (fetch_one_way_groups e (s\<lparr>calls := c, now := t\<rparr>) ps)) = c @ [ps]"
proof -
  from fetch_one_way_groups_sends [OF later_world [OF assms, of c]]
  obtain groups s1 where
    "fetch_one_way_groups e (s\<lparr>calls := c, now := t\<rparr>) ps = (groups, s1)"
    "calls s1 = calls (s\<lparr>calls := c, now := t\<rparr>) @ [ps]"
    by (elim exE conjE)
  then show ?thesis by simp
qed

lemma lookup_return_group_again:
  assumes "cache_lookup e s (AList.update ''departure_token'' token base) = None"
    and "u_count (load_usage e s) < SERPAPI_MONTHLY_LIMIT"
    and "now s \<le> t" and "month_of e t = month_of e (now s)"
  shows "calls (snd (lookup_return_group e (s\<lparr>calls := c, now := t\<rparr>) base token))
           = c @ [AList.update ''departure_token'' token base]"
proof -
  from lookup_return_group_sends [OF later_world [OF assms, of c]]
  obtain g s1 where
    "lookup_return_group e (s\<lparr>calls := c, now := t\<rparr>) base token = (g, s1)"
    "calls s1 = calls (s\<lparr>calls := c, now := t\<rparr>) @ [AList.update ''departure_token'' token base]"
    by (elim exE conjE)
  then show ?thesis by simp
qed

text \<open>
  C9. A one-way-leg lookup or a return-leg lookup that reaches the upstream search
  (nothing fresh in the cache, quota left) and gets a response without error and without
  flight groups leaves the usage file and the cache file as they were: only the request
  is on record. An identical lookup at any later time finds nothing in the cache either,
  and at a later time of the same month it sends the request again.
\<close>

theorem empty_lookup_leaves_no_trace:
  assumes "cache_lookup e s ps = None"
    and "u_count (load_usage e s) < SERPAPI_MONTHLY_LIMIT"
    and "google_search e (calls s) ps = Returns results"
    and "error_of results = None"
    and "all_groups results = []"
  shows "fetch_one_way_groups e s ps = ([], s\<lparr>calls := calls s @ [ps]\<rparr>)
       \<and> (\<forall>t \<ge> now s. month_of e t = month_of e (now s) \<longrightarrow>
             calls (snd (fetch_one_way_groups e (s\<lparr>calls := calls s @ [ps], now := t\<rparr>) ps))
               = calls s @ [ps, ps])
       \<and> (ps = AList.update ''departure_token'' token base \<longrightarrow>
             lookup_return_group e s base token = (None, s\<lparr>calls := calls s @ [ps]\<rparr>)
             \<and> (\<forall>t \<ge> now s. month_of e t = month_of e (now s) \<longrightarrow>
                  calls (snd (lookup_return_group e (s\<lparr>calls := calls s @ [ps], now := t\<rparr>) base token))
                    = calls s @ [ps, ps]))
       \<and> (\<forall>t \<ge> now s. cache_lookup e (s\<lparr>calls := calls s @ [ps], now := t\<rparr>) ps = None)
       \<and> usage_file (s\<lparr>calls := calls s @ [ps]\<rparr>) = usage_file s
       \<and> cache_file (s\<lparr>calls := calls s @ [ps]\<rparr>) = cache_file s"
proof (intro conjI impI allI)
  show "cache_lookup e (s\<lparr>calls := calls s @ [ps], now := t\<rparr>) ps = None" if "now s \<le> t" for t
    by (rule cache_lookup_miss_later [OF assms(1)]) (simp_all add: that)
  show "usage_file (s\<lparr>calls := calls s @ [ps]\<rparr>) = usage_file s" by simp
  show "cache_file (s\<lparr>calls := calls s @ [ps]\<rparr>) = cache_file s" by simp
  show "fetch_one_way_groups e s ps = ([], s\<lparr>calls := calls s @ [ps]\<rparr>)"
    by (rule fetch_one_way_groups_empty [OF assms])
  show "calls (snd (fetch_one_way_groups e (s\<lparr>calls := calls s @ [ps], now := t\<rparr>) ps))
          = calls s @ [ps, ps]"
    if "now s \<le> t" "month_of e t = month_of e (now s)" for t
    using fetch_one_way_groups_again [OF assms(1,2) that, of "calls s @ [ps]"] by simp
  show "lookup_return_group e s base token = (None, s\<lparr>calls := calls s @ [ps]\<rparr>)"
    if p: "ps = AList.update ''departure_token'' token base"
    using lookup_return_group_empty [of e s token base results] assms unfolding p by simp
  show "calls (snd (lookup_return_group e (s\<lparr>calls := calls s @ [ps], now := t\<rparr>) base token))
          = calls s @ [ps, ps]"
    if p: "ps = AList.update ''departure_token'' token base"
      and t: "now s \<le> t" "month_of e t = month_of e (now s)" for t
    using lookup_return_group_again [of e s token base t "calls s @ [ps]"] assms(1,2) t
    unfolding p by simp
qed

theorem empty_lookup_leaves_no_trace_witness:
  "fetch_one_way_groups (ex_env (always (Returns (ex_response [])))) (ex_world 10 Map.empty)
     [(''engine'', ''google_flights''), (''departure_id'', ''AUS''), (''arrival_id'', ''LAX''),
      (''outbound_date'', ''2026-03-10''), (''type'', ''2'')]
   = ([], (ex_world 10 Map.empty)
            \<lparr>calls := [[(''engine'', ''google_flights''), (''departure_id'', ''AUS''),
                        (''arrival_id'', ''LAX''), (''outbound_date'', ''2026-03-10''),
                        (''type'', ''2'')]]\<rparr>)
   \<and> calls (snd (fetch_one_way_groups (ex_env (always (Returns (ex_response []))))
        ((ex_world 10 Map.empty)
            \<lparr>calls := [[(''engine'', ''google_flights''), (''departure_id'', ''AUS''),
                        (''arrival_id'', ''LAX''), (''outbound_date'', ''2026-03-10''),
                        (''type'', ''2'')]], now := 5000\<rparr>)
        [(''engine'', ''google_flights''), (''departure_id'', ''AUS''), (''arrival_id'', ''LAX''),
         (''outbound_date'', ''2026-03-10''), (''type'', ''2'')]))
     = [[(''engine'', ''google_flights''), (''departure_id'', ''AUS''), (''arrival_id'', ''LAX''),
         (''outbound_date'', ''2026-03-10''), (''type'', ''2'')],
        [(''engine'', ''google_flights''), (''departure_id'', ''AUS''), (''arrival_id'', ''LAX''),
         (''outbound_date'', ''2026-03-10''), (''type'', ''2'')]]"
proof -
  let ?e = "ex_env (always (Returns (ex_response [])))"
  let ?s = "ex_world 10 Map.empty"
  let ?ps = "[(''engine'', ''google_flights''), (''departure_id'', ''AUS''), (''arrival_id'', ''LAX''),
              (''outbound_date'', ''2026-03-10''), (''type'', ''2'')]"
  have h1: "cache_lookup ?e ?s ?ps = None"
    by (simp add: cache_lookup_def ex_env_def ex_world_def)
  have h2: "u_count (load_usage ?e ?s) < SERPAPI_MONTHLY_LIMIT"
    by (simp add: load_usage_def ex_env_def ex_world_def SERPAPI_MONTHLY_LIMIT_def)
  have h3: "google_search ?e (calls ?s) ?ps = Returns (ex_response [])"
    by (simp add: ex_env_def always_def)
  have h4: "error_of (ex_response []) = None"
    by (simp add: error_of_def ex_response_def)
  have h5: "all_groups (ex_response []) = []"
    by (simp add: all_groups_def ex_response_def)
  have n: "calls ?s = []" "now ?s \<le> 5000" "month_of ?e 5000 = month_of ?e (now ?s)"
    by (simp_all add: ex_world_def ex_env_def)
  from empty_lookup_leaves_no_trace [OF h1 h2 h3 h4 h5, of undefined undefined] n
  show ?thesis by simp
qed

subsection \<open>Cache hits\<close>



lemma no_key_set_if_truthy:
  "k' \<noteq> k \<Longrightarrow> k' \<notin> fst ` set ps \<Longrightarrow> k' \<notin> fst ` set (set_if_truthy k x f ps)"
  by (cases x) (simp_all add: set_if_truthy_def dom_update)

lemma no_key_set_if_given:
  "k' \<noteq> k \<Longrightarrow> k' \<notin> fst ` set ps \<Longrightarrow> k' \<notin> fst ` set (set_if_given k x ps)"
  by (cases x) (simp_all add: set_if_given_def dom_update)

lemma build_params_no_token: "''departure_token'' \<notin> fst ` set (build_params e combo)"
proof (cases "truthy (sc_include_airlines combo)")
  case True
  show ?thesis
    unfolding build_params_def Let_def if_P [OF True]
    by (intro no_key_set_if_truthy no_key_set_if_given) simp_all
next
  case False
  show ?thesis
    unfolding build_params_def Let_def if_not_P [OF False]
    by (intro no_key_set_if_truthy no_key_set_if_given) simp_all
qed


lemma sends_only_refl: "sends_only e P s s"
  by (simp add: sends_only_def)

lemma sends_only_trans:
  assumes "sends_only e P s s1" and "sends_only e P s1 s2"
  shows "sends_only e P s s2"
proof -
  from assms(1) obtain n1 where
    a: "now s1 = now s" "calls s1 = calls s @ n1" "list_all P n1"
       "u_count (load_usage e s1) \<le> u_count (load_usage e s) + int (length n1)"
    unfolding sends_only_def by (elim exE conjE)
  from assms(2) obtain n2 where
    b: "now s2 = now s1" "calls s2 = calls s1 @ n2" "list_all P n2"
       "u_count (load_usage e s2) \<le> u_count (load_usage e s1) + int (length n2)"
    unfolding sends_only_def by (elim exE conjE)
  have "calls s2 = calls s @ (n1 @ n2)" using a(2) b(2) by simp
  moreover have "list_all P (n1 @ n2)" using a(3) b(3) by simp
  moreover have "u_count (load_usage e s2) \<le> u_count (load_usage e s) + int (length (n1 @ n2))"
    using a(4) b(4) by simp
  moreover have "now s2 = now s" using a(1) b(1) by simp
  ultimately show ?thesis unfolding sends_only_def by blast
qed

lemma load_usage_cache_file [simp]: "load_usage e (s\<lparr>cache_file := c\<rparr>) = load_usage e s"
  by (simp add: load_usage_def split: option.splits)

lemma load_usage_cache_store [simp]: "load_usage e (cache_store e s ps r) = load_usage e s"
  by (simp add: cache_store_def)

lemma load_usage_increment:
  "u_count (load_usage e (increment_usage e s)) = u_count (load_usage e s) + 1"
  by (simp add: load_usage_def increment_usage_def Let_def split: option.splits)

lemma now_cache_store [simp]: "now (cache_store e s ps r) = now s"
  by (simp add: cache_store_def)

lemma calls_cache_store [simp]: "calls (cache_store e s ps r) = calls s"
  by (simp add: cache_store_def)

lemma now_increment_usage [simp]: "now (increment_usage e s) = now s"
  by (simp add: increment_usage_def Let_def)

lemma calls_increment_usage [simp]: "calls (increment_usage e s) = calls s"
  by (simp add: increment_usage_def Let_def)

lemma sends_only_request:
  "P ps \<Longrightarrow> sends_only e P s (s\<lparr>calls := calls s @ [ps]\<rparr>)"
  by (simp add: sends_only_def)

lemma sends_only_counted:
  "P ps \<Longrightarrow> sends_only e P s (cache_store e (increment_usage e (s\<lparr>calls := calls s @ [ps]\<rparr>)) ps r)"
  by (simp add: sends_only_def load_usage_increment)

lemma lookup_return_group_sends_only:
  assumes "lookup_return_group e s base token = (g, s1)"
    and "P (AList.update ''departure_token'' token base)"
  shows "sends_only e P s s1"
proof (cases "cache_lookup e s (AList.update ''departure_token'' token base)")
  case (Some cached)
  with assms(1) have "s1 = s"
    by (auto simp: lookup_return_group_def Let_def split: list.splits)
  then show ?thesis by (simp add: sends_only_refl)
next
  case None
  show ?thesis
  proof (cases "u_count (load_usage e s) \<ge> SERPAPI_MONTHLY_LIMIT")
    case True
    with None assms(1) have "s1 = s" by (simp add: lookup_return_group_def Let_def)
    then show ?thesis by (simp add: sends_only_refl)
  next
    case False
    show ?thesis
    proof (cases "google_search e (calls s) (AList.update ''departure_token'' token base)")
      case Raises
      with None False assms(1)
      have "s1 = s\<lparr>calls := calls s @ [AList.update ''departure_token'' token base]\<rparr>"
        by (simp add: lookup_return_group_def send_request_def Let_def)
      then show ?thesis by (simp add: sends_only_request [of P, OF assms(2)])
    next
      case (Returns results)
      show ?thesis
      proof (cases "error_of results = None \<and> all_groups results \<noteq> []")
        case True
        with None False Returns assms(1)
        have "s1 = cache_store e (increment_usage e
                 (s\<lparr>calls := calls s @ [AList.update ''departure_token'' token base]\<rparr>))
                 (AList.update ''departure_token'' token base) results"
          by (auto simp: lookup_return_group_def send_request_def Let_def split: list.splits)
        then show ?thesis by (simp add: sends_only_counted [of P, OF assms(2)])
      next
        case no: False
        with None False Returns assms(1)
        have "s1 = s\<lparr>calls := calls s @ [AList.update ''departure_token'' token base]\<rparr>"
          by (auto simp: lookup_return_group_def send_request_def Let_def split: list.splits if_splits)
        then show ?thesis by (simp add: sends_only_request [of P, OF assms(2)])
      qed
    qed
  qed
qed

lemma enrich_group_sends_only:
  assumes "enrich_group e ps s grp = (grp1, s1)"
    and "\<And>token. P (AList.update ''departure_token'' token ps)"
  shows "sends_only e P s s1"
proof (cases "grp_departure_token grp")
  case None
  with assms(1) show ?thesis by (simp add: enrich_group_def sends_only_refl)
next
  case (Some token)
  show ?thesis
  proof (cases "token = []")
    case True
    with Some assms(1) show ?thesis by (simp add: enrich_group_def sends_only_refl)
  next
    case False
    obtain g s' where l: "lookup_return_group e s ps token = (g, s')"
      by (cases "lookup_return_group e s ps token")
    with Some False assms(1) have "s1 = s'"
      by (cases g) (simp_all add: enrich_group_def)
    with lookup_return_group_sends_only [where P = P, OF l assms(2)] show ?thesis by simp
  qed
qed

lemma enrich_groups_sends_only:
  assumes "enrich_groups e ps s groups = (groups1, s1)"
    and "\<And>token. P (AList.update ''departure_token'' token ps)"
  shows "sends_only e P s s1"
  using assms(1)
proof (induction groups arbitrary: s groups1 s1)
  case Nil
  then show ?case by (simp add: sends_only_refl)
next
  case (Cons grp rest)
  obtain g' s' where a: "enrich_group e ps s grp = (g', s')"
    by (cases "enrich_group e ps s grp")
  obtain r' s'' where b: "enrich_groups e ps s' rest = (r', s'')"
    by (cases "enrich_groups e ps s' rest")
  from Cons.prems a b have "s1 = s''" by simp
  with sends_only_trans [OF enrich_group_sends_only [where P = P, OF a assms(2)] Cons.IH [OF b]]
  show ?case by simp
qed

lemma enrich_return_legs_sends_only:
  assumes "enrich_return_legs e s results ps = (r1, s1)"
    and "\<And>token. P (AList.update ''departure_token'' token ps)"
  shows "sends_only e P s s1"
proof -
  obtain t5 s' where a: "enrich_groups e ps s (take 5 (all_groups results)) = (t5, s')"
    by (cases "enrich_groups e ps s (take 5 (all_groups results))")
  with assms(1) have "s1 = s'" by (simp add: enrich_return_legs_def Let_def)
  with enrich_groups_sends_only [where P = P, OF a assms(2)] show ?thesis by simp
qed

lemma cache_lookup_fresh:
  assumes "\<not> NO_CACHE e" and "cache_file s (cache_key e ps) = Some entry"
    and "ce_response entry = Some cached"
    and "now s - ce_timestamp entry < SERPAPI_CACHE_TTL_HOURS * 3600"
  shows "cache_lookup e s ps = Some cached"
  using assms by (simp add: cache_lookup_def field_simps)

lemma has_token_update: "''departure_token'' \<in> fst ` set (AList.update ''departure_token'' token ps)"
  by (simp add: dom_update)

lemma fetch_combination_hit:
  assumes "cache_lookup e s (build_params e combo) = Some cached"
  shows "sends_only e (\<lambda>p. ''departure_token'' \<in> fst ` set p) s (snd (fetch_combination e s combo))"
    and "\<not> is_round_trip combo \<Longrightarrow> snd (fetch_combination e s combo) = s"
    and "\<not> is_round_trip combo \<Longrightarrow> u_count (load_usage e s) < SERPAPI_MONTHLY_LIMIT \<Longrightarrow>
           fst (fetch_combination e s combo) = ApiResponse cached"
proof -
  show "\<not> is_round_trip combo \<Longrightarrow> snd (fetch_combination e s combo) = s"
    using assms by (simp add: fetch_combination_def Let_def)
  show "\<not> is_round_trip combo \<Longrightarrow> u_count (load_usage e s) < SERPAPI_MONTHLY_LIMIT \<Longrightarrow>
           fst (fetch_combination e s combo) = ApiResponse cached"
    using assms by (simp add: fetch_combination_def Let_def)
  show "sends_only e (\<lambda>p. ''departure_token'' \<in> fst ` set p) s (snd (fetch_combination e s combo))"
  proof (cases "u_count (load_usage e s) \<ge> SERPAPI_MONTHLY_LIMIT \<or> \<not> is_round_trip combo")
    case True
    with assms have "snd (fetch_combination e s combo) = s"
      by (auto simp: fetch_combination_def Let_def)
    then show ?thesis by (simp add: sends_only_refl)
  next
    case False
    obtain c1 s1 where a: "enrich_return_legs e s cached (build_params e combo) = (c1, s1)"
      by (cases "enrich_return_legs e s cached (build_params e combo)")
    with False assms have "snd (fetch_combination e s combo) = s1"
      by (simp add: fetch_combination_def Let_def)
    with enrich_return_legs_sends_only [where P = "\<lambda>p. ''departure_token'' \<in> fst ` set p", OF a]
    show ?thesis by (simp add: has_token_update)
  qed
qed

text \<open>
  C5, as the claim states it, fails when the program runs with \<^verbatim>\<open>--no-cache\<close>:
  \<^verbatim>\<open>_cache_lookup\<close> then returns nothing whatever the cache file holds. With a fresh entry
  for a one-way combination in the file, \<^verbatim>\<open>fetch_combination\<close> sends the primary
  request and the usage count goes from 10 to 11.
\<close>

theorem cache_hit_counterexample:
  "cache_file
     (ex_world 10
        (ex_cache (ex_env_no_cache (always (Returns (ex_response [ex_out ''Frontier'' ''F9 1001'' 99]))))
           (build_params (ex_env_no_cache (always (Returns (ex_response [ex_out ''Frontier'' ''F9 1001'' 99]))))
              ex_one_way)
           (ex_response [ex_out ''Frontier'' ''F9 1001'' 99]) 400))
     (cache_key (ex_env_no_cache (always (Returns (ex_response [ex_out ''Frontier'' ''F9 1001'' 99]))))
        (build_params (ex_env_no_cache (always (Returns (ex_response [ex_out ''Frontier'' ''F9 1001'' 99]))))
           ex_one_way))
     = Some \<lparr> ce_timestamp = 400,
              ce_response = Some (ex_response [ex_out ''Frontier'' ''F9 1001'' 99]) \<rparr>
   \<and> calls (snd (fetch_combination
        (ex_env_no_cache (always (Returns (ex_response [ex_out ''Frontier'' ''F9 1001'' 99]))))
        (ex_world 10
           (ex_cache (ex_env_no_cache (always (Returns (ex_response [ex_out ''Frontier'' ''F9 1001'' 99]))))
              (build_params (ex_env_no_cache (always (Returns (ex_response [ex_out ''Frontier'' ''F9 1001'' 99]))))
                 ex_one_way)
              (ex_response [ex_out ''Frontier'' ''F9 1001'' 99]) 400))
        ex_one_way))
     = [build_params (ex_env_no_cache (always (Returns (ex_response [ex_out ''Frontier'' ''F9 1001'' 99]))))
          ex_one_way]
   \<and> get_monthly_usage
        (ex_env_no_cache (always (Returns (ex_response [ex_out ''Frontier'' ''F9 1001'' 99]))))
        (snd (fetch_combination
           (ex_env_no_cache (always (Returns (ex_response [ex_out ''Frontier'' ''F9 1001'' 99]))))
           (ex_world 10
              (ex_cache (ex_env_no_cache (always (Returns (ex_response [ex_out ''Frontier'' ''F9 1001'' 99]))))
                 (build_params (ex_env_no_cache (always (Returns (ex_response [ex_out ''Frontier'' ''F9 1001'' 99]))))
                    ex_one_way)
                 (ex_response [ex_out ''Frontier'' ''F9 1001'' 99]) 400))
           ex_one_way))
     = 11"
proof -
  define r where "r = ex_response [ex_out ''Frontier'' ''F9 1001'' 99]"
  define e where "e = ex_env_no_cache (always (Returns r))"
  define ps where "ps = build_params e ex_one_way"
  define s where "s = ex_world 10 (ex_cache e ps r 400)"
  have entry: "cache_file s (cache_key e ps) = Some \<lparr> ce_timestamp = 400, ce_response = Some r \<rparr>"
    by (simp add: s_def ex_world_def ex_cache_def)
  have nc: "NO_CACHE e" by (simp add: e_def ex_env_no_cache_def)
  have api: "google_search e (calls s) ps = Returns r"
    by (simp add: e_def ex_env_no_cache_def ex_env_def always_def)
  have ok: "error_of r = None" by (simp add: error_of_def r_def ex_response_def)
  have ow: "\<not> is_round_trip ex_one_way"
    by (simp add: is_round_trip_def round_trip_date_def ex_one_way_def ex_combo_def)
  have q: "\<not> SERPAPI_MONTHLY_LIMIT \<le> u_count (load_usage e s)"
    by (simp add: load_usage_def s_def e_def ex_world_def ex_env_no_cache_def ex_env_def
          SERPAPI_MONTHLY_LIMIT_def)
  have fc: "fetch_combination e s ex_one_way
              = (ApiResponse r, increment_usage e (s\<lparr>calls := calls s @ [ps]\<rparr>))"
    using nc api ok ow q
    by (simp add: fetch_combination_def cache_lookup_def cache_store_def send_request_def
          Let_def ps_def [symmetric])
  have c: "calls (snd (fetch_combination e s ex_one_way)) = [ps]"
    unfolding fc by (simp add: increment_usage_def Let_def s_def ex_world_def)
  have u: "get_monthly_usage e (snd (fetch_combination e s ex_one_way)) = 11"
    unfolding fc
    by (simp add: get_monthly_usage_def increment_usage_def load_usage_def Let_def
          s_def e_def ex_world_def ex_env_no_cache_def ex_env_def)
  from entry c u show ?thesis
    unfolding s_def ps_def e_def r_def by simp
qed

text \<open>
  C5, amended. When the cache is not switched off and holds an entry for the parameters
  of a combination that is younger than the TTL, \<^verbatim>\<open>fetch_combination\<close> does not send
  the primary request: every request it sends carries a \<^verbatim>\<open>departure_token\<close> (a return-leg
  lookup of the enrichment), which the primary parameters never do, and the usage count
  grows by at most the number of these lookups. For a combination that is not a round
  trip nothing is sent and the world stays as it was, the usage count with it; with
  quota left the cached response is returned.
\<close>

theorem cache_hit_skips_call:
  assumes "\<not> NO_CACHE e"
    and "cache_file s (cache_key e (build_params e combo)) = Some entry"
    and "ce_response entry = Some cached"
    and "now s - ce_timestamp entry < SERPAPI_CACHE_TTL_HOURS * 3600"
  shows "\<exists>new. calls (snd (fetch_combination e s combo)) = calls s @ new
           \<and> build_params e combo \<notin> set new
           \<and> (\<forall>p \<in> set new. ''departure_token'' \<in> fst ` set p)
           \<and> get_monthly_usage e (snd (fetch_combination e s combo))
               \<le> get_monthly_usage e s + int (length new)
           \<and> (\<not> is_round_trip combo \<longrightarrow>
                 new = [] \<and> snd (fetch_combination e s combo) = s
                 \<and> get_monthly_usage e (snd (fetch_combination e s combo)) = get_monthly_usage e s
                 \<and> (get_monthly_usage e s < SERPAPI_MONTHLY_LIMIT \<longrightarrow>
                       fst (fetch_combination e s combo) = ApiResponse cached))"
proof -
  have hit: "cache_lookup e s (build_params e combo) = Some cached"
    by (rule cache_lookup_fresh [OF assms])
  from fetch_combination_hit(1) [OF hit] obtain new where
    n: "calls (snd (fetch_combination e s combo)) = calls s @ new"
       "list_all (\<lambda>p. ''departure_token'' \<in> fst ` set p) new"
       "u_count (load_usage e (snd (fetch_combination e s combo)))
          \<le> u_count (load_usage e s) + int (length new)"
    unfolding sends_only_def by (elim exE conjE)
  have tok: "\<forall>p \<in> set new. ''departure_token'' \<in> fst ` set p"
    using n(2) by (simp add: list_all_iff)
  have prim: "build_params e combo \<notin> set new"
    using tok build_params_no_token [of e combo] by blast
  have one: "\<not> is_round_trip combo \<longrightarrow>
                 new = [] \<and> snd (fetch_combination e s combo) = s
                 \<and> get_monthly_usage e (snd (fetch_combination e s combo)) = get_monthly_usage e s
                 \<and> (get_monthly_usage e s < SERPAPI_MONTHLY_LIMIT \<longrightarrow>
                       fst (fetch_combination e s combo) = ApiResponse cached)"
  proof
    assume o: "\<not> is_round_trip combo"
    have same: "snd (fetch_combination e s combo) = s"
      by (rule fetch_combination_hit(2) [OF hit o])
    with n(1) have "new = []" by simp
    with same fetch_combination_hit(3) [OF hit o]
    show "new = [] \<and> snd (fetch_combination e s combo) = s
                 \<and> get_monthly_usage e (snd (fetch_combination e s combo)) = get_monthly_usage e s
                 \<and> (get_monthly_usage e s < SERPAPI_MONTHLY_LIMIT \<longrightarrow>
                       fst (fetch_combination e s combo) = ApiResponse cached)"
      by (simp add: get_monthly_usage_def)
  qed
  from n(1) prim tok n(3) one show ?thesis
    unfolding get_monthly_usage_def by blast
qed


theorem cache_hit_skips_call_witness:
  "fetch_combination (ex_env (always Raises))
     (ex_world 10
        (ex_cache (ex_env (always Raises))
           (build_params (ex_env (always Raises)) (ex_combo ''AUS'' ''LAX'' ''2026-03-10'' None 2))
           (ex_response [ex_out ''Frontier'' ''F9 1001'' 99]) 400))
     (ex_combo ''AUS'' ''LAX'' ''2026-03-10'' None 2)
   = (ApiResponse (ex_response [ex_out ''Frontier'' ''F9 1001'' 99]),
      ex_world 10
        (ex_cache (ex_env (always Raises))
           (build_params (ex_env (always Raises)) (ex_combo ''AUS'' ''LAX'' ''2026-03-10'' None 2))
           (ex_response [ex_out ''Frontier'' ''F9 1001'' 99]) 400))"
proof -
  let ?e = "ex_env (always Raises)"
  let ?c = "ex_combo ''AUS'' ''LAX'' ''2026-03-10'' None 2"
  let ?r = "ex_response [ex_out ''Frontier'' ''F9 1001'' 99]"
  let ?s = "ex_world 10 (ex_cache ?e (build_params ?e ?c) ?r 400)"
  let ?entry = "\<lparr> ce_timestamp = 400, ce_response = Some ?r \<rparr>"
  have h1: "\<not> NO_CACHE ?e" by (simp add: ex_env_def)
  have h2: "cache_file ?s (cache_key ?e (build_params ?e ?c)) = Some ?entry"
    by (simp add: ex_world_def ex_cache_def)
  have h3: "ce_response ?entry = Some ?r" by simp
  have h4: "now ?s - ce_timestamp ?entry < SERPAPI_CACHE_TTL_HOURS * 3600"
    by (simp add: ex_world_def SERPAPI_CACHE_TTL_HOURS_def)
  have o: "\<not> is_round_trip ?c"
    by (simp add: is_round_trip_def round_trip_date_def ex_combo_def)
  have q: "get_monthly_usage ?e ?s < SERPAPI_MONTHLY_LIMIT"
    by (simp add: get_monthly_usage_def load_usage_def ex_world_def ex_env_def SERPAPI_MONTHLY_LIMIT_def)
  from cache_hit_skips_call [OF h1 h2 h3 h4] o q
  have "fst (fetch_combination ?e ?s ?c) = ApiResponse ?r \<and> snd (fetch_combination ?e ?s ?c) = ?s"
    by blast
  then show ?thesis by (simp add: prod_eq_iff)
qed


subsection \<open>The batch when the quota is used up\<close>

















lemma world_now_same [simp]: "s\<lparr>now := now s\<rparr> = s"
  by simp






lemma fetch_all_main_only:
  "filter (\<lambda>f. filter_type f = at_least_one_leg_airline) pfs = [] \<Longrightarrow>
     fetch_all e s combos pfs = fetch_loop e (length combos) 1 combos ([], s)"
  by (simp add: fetch_all_def Let_def)







subsection \<open>The batch after a fatal error\<close>



lemma fetch_loop_step:
  "fetch_loop e n i (combo # rest) (acc, s) =
     (case fetch_combination e s combo of
        (raw, s1) \<Rightarrow>
          if is_fatal raw then (acc @ [raw], s1)
          else (case round_trip_date combo of
                  None \<Rightarrow> fetch_loop e n (Suc i) rest (acc @ [raw], if i < n then sleep s1 else s1)
                | Some rd \<Rightarrow>
                    (case independent_legs e s1 combo rd
                            (AList.delete ''exclude_airlines''
                              (AList.delete ''include_airlines'' (build_params e combo))) of
                       (unit, s2) \<Rightarrow>
                         fetch_loop e n (Suc i) rest
                           (acc @ [raw, unit], if i < n then sleep s2 else s2))))"
  by (simp split: prod.splits option.splits)

lemma independent_legs_unit:
  "\<exists>outs rets s2. independent_legs e s combo rd base = (IndependentOneWay (info_of combo) outs rets, s2)"
  by (simp add: independent_legs_def split: prod.splits)

lemma fetch_loop_extends:
  "\<exists>new. fst (fetch_loop e n i combos (acc, s)) = acc @ new"
proof (induction combos arbitrary: i acc s)
  case Nil
  show ?case by simp
next
  case (Cons combo rest)
  obtain raw s1 where fc: "fetch_combination e s combo = (raw, s1)"
    by (cases "fetch_combination e s combo")
  show ?case
  proof (cases "is_fatal raw")
    case True
    then show ?thesis by (simp add: fetch_loop_step fc)
  next
    case nf: False
    show ?thesis
    proof (cases "round_trip_date combo")
      case None
      from Cons.IH [of "Suc i" "acc @ [raw]" "if i < n then sleep s1 else s1"]
      obtain new where
        "fst (fetch_loop e n (Suc i) rest (acc @ [raw], if i < n then sleep s1 else s1))
           = (acc @ [raw]) @ new"
        by (elim exE)
      then have "fst (fetch_loop e n i (combo # rest) (acc, s)) = acc @ (raw # new)"
        by (simp add: fetch_loop_step fc nf None)
      then show ?thesis by (rule exI)
    next
      case (Some rd)
      obtain unit s2 where il:
        "independent_legs e s1 combo rd
           (AList.delete ''exclude_airlines'' (AList.delete ''include_airlines'' (build_params e combo)))
         = (unit, s2)"
        by (cases "independent_legs e s1 combo rd
           (AList.delete ''exclude_airlines'' (AList.delete ''include_airlines'' (build_params e combo)))")
      from Cons.IH [of "Suc i" "acc @ [raw, unit]" "if i < n then sleep s2 else s2"]
      obtain new where
        "fst (fetch_loop e n (Suc i) rest (acc @ [raw, unit], if i < n then sleep s2 else s2))
           = (acc @ [raw, unit]) @ new"
        by (elim exE)
      then have "fst (fetch_loop e n i (combo # rest) (acc, s)) = acc @ (raw # unit # new)"
        by (simp add: fetch_loop_step fc nf Some il)
      then show ?thesis by (rule exI)
    qed
  qed
qed

lemma not_fatal_unit: "\<not> is_fatal (IndependentOneWay info outs rets)"
  by (simp add: is_fatal_def)

text \<open>A run of the main loop in which no fatal sentinel turns up goes on with the rest.\<close>

lemma fetch_loop_append:
  assumes "fetch_loop e n i pre (acc, s) = (acc @ new, s1)"
    and "list_all (\<lambda>r. \<not> is_fatal r) new"
  shows "fetch_loop e n i (pre @ rest) (acc, s) = fetch_loop e n (i + length pre) rest (acc @ new, s1)"
  using assms
proof (induction pre arbitrary: i acc s new)
  case Nil
  then show ?case by simp
next
  case (Cons combo pre)
  obtain raw s' where fc: "fetch_combination e s combo = (raw, s')"
    by (cases "fetch_combination e s combo")
  have nf: "\<not> is_fatal raw"
  proof
    assume f: "is_fatal raw"
    with Cons.prems(1) have "new = [raw]" by (simp add: fetch_loop_step fc)
    with Cons.prems(2) f show False by simp
  qed
  show ?case
  proof (cases "round_trip_date combo")
    case None
    let ?s3 = "if i < n then sleep s' else s'"
    from fetch_loop_extends [of e n "Suc i" pre "acc @ [raw]" ?s3] obtain new' where
      ex: "fst (fetch_loop e n (Suc i) pre (acc @ [raw], ?s3)) = (acc @ [raw]) @ new'"
      by (elim exE)
    from Cons.prems(1) have run: "fetch_loop e n (Suc i) pre (acc @ [raw], ?s3) = (acc @ new, s1)"
      by (simp add: fetch_loop_step fc nf None)
    with ex have new: "new = raw # new'" by simp
    with Cons.prems(2) have na: "list_all (\<lambda>r. \<not> is_fatal r) new'" by simp
    have run': "fetch_loop e n (Suc i) pre (acc @ [raw], ?s3) = ((acc @ [raw]) @ new', s1)"
      using run new by simp
    from Cons.IH [OF run' na]
    have "fetch_loop e n (Suc i) (pre @ rest) (acc @ [raw], ?s3)
            = fetch_loop e n (Suc i + length pre) rest ((acc @ [raw]) @ new', s1)" .
    then show ?thesis
      by (simp add: fetch_loop_step fc nf None new)
  next
    case (Some rd)
    obtain unit s2 where il:
      "independent_legs e s' combo rd
         (AList.delete ''exclude_airlines'' (AList.delete ''include_airlines'' (build_params e combo)))
       = (unit, s2)"
      by (cases "independent_legs e s' combo rd
         (AList.delete ''exclude_airlines'' (AList.delete ''include_airlines'' (build_params e combo)))")
    let ?s3 = "if i < n then sleep s2 else s2"
    from fetch_loop_extends [of e n "Suc i" pre "acc @ [raw, unit]" ?s3] obtain new' where
      ex: "fst (fetch_loop e n (Suc i) pre (acc @ [raw, unit], ?s3)) = (acc @ [raw, unit]) @ new'"
      by (elim exE)
    from Cons.prems(1) have run: "fetch_loop e n (Suc i) pre (acc @ [raw, unit], ?s3) = (acc @ new, s1)"
      by (simp add: fetch_loop_step fc nf Some il)
    with ex have new: "new = raw # unit # new'" by simp
    with Cons.prems(2) have na: "list_all (\<lambda>r. \<not> is_fatal r) new'" by simp
    have run': "fetch_loop e n (Suc i) pre (acc @ [raw, unit], ?s3) = ((acc @ [raw, unit]) @ new', s1)"
      using run new by simp
    from Cons.IH [OF run' na]
    have "fetch_loop e n (Suc i) (pre @ rest) (acc @ [raw, unit], ?s3)
            = fetch_loop e n (Suc i + length pre) rest ((acc @ [raw, unit]) @ new', s1)" .
    then show ?thesis
      by (simp add: fetch_loop_step fc nf Some il new)
  qed
qed

lemma fetch_combination_fatal:
  assumes "u_count (load_usage e s) < SERPAPI_MONTHLY_LIMIT"
    and "cache_lookup e s (build_params e combo) = None"
    and "google_search e (calls s) (build_params e combo) = Returns results"
    and "error_of results = Some err"
    and "py_in ''invalid api key'' (lower err)"
  shows "fetch_combination e s combo
           = (FatalError err, s\<lparr>calls := calls s @ [build_params e combo]\<rparr>)"
  using assms by (simp add: fetch_combination_def send_request_def Let_def)

lemma error_of_nonempty: "error_of results = Some err \<Longrightarrow> err \<noteq> []"
  by (auto simp: error_of_def split: option.splits if_splits)


lemma fetch_one_way_groups_error:
  assumes "cache_lookup e s ps = None" and "u_count (load_usage e s) < SERPAPI_MONTHLY_LIMIT"
    and "google_search e (calls s) ps = Returns results" and "error_of results \<noteq> None"
  shows "fetch_one_way_groups e s ps = ([], s\<lparr>calls := calls s @ [ps]\<rparr>)"
  using assms by (simp add: fetch_one_way_groups_def send_request_def)

lemma cache_lookup_empty: "cache_file s = Map.empty \<Longrightarrow> cache_lookup e s ps = None"
  by (simp add: cache_lookup_def)

lemma independent_legs_error:
  assumes "cache_file s = Map.empty" and "u_count (load_usage e s) < SERPAPI_MONTHLY_LIMIT"
    and "\<And>sent ps. google_search e sent ps = Returns results" and "error_of results \<noteq> None"
  shows "independent_legs e s combo rd base
           = (IndependentOneWay (info_of combo) [] [],
              s\<lparr>calls := calls s @ [outbound_one_way base, return_one_way e combo rd base]\<rparr>)"
proof -
  have a: "fetch_one_way_groups e s (outbound_one_way base)
             = ([], s\<lparr>calls := calls s @ [outbound_one_way base]\<rparr>)"
    by (rule fetch_one_way_groups_error [OF cache_lookup_empty [OF assms(1)] assms(2) assms(3) assms(4)])
  have b: "fetch_one_way_groups e (s\<lparr>calls := calls s @ [outbound_one_way base]\<rparr>)
               (return_one_way e combo rd base)
             = ([], s\<lparr>calls := calls s @ [outbound_one_way base]\<rparr>
                     \<lparr>calls := calls (s\<lparr>calls := calls s @ [outbound_one_way base]\<rparr>)
                                 @ [return_one_way e combo rd base]\<rparr>)"
    by (rule fetch_one_way_groups_error [OF cache_lookup_empty _ assms(3) assms(4)])
       (simp_all add: assms(1,2))
  show ?thesis
    by (simp add: independent_legs_def a b)
qed

text \<open>
  C2, as the claim states it, fails. With two round trips, a preference for an airline
  among the post-filters and a bad credential, the first primary response is fatal and
  the main loop stops; but the sentinel is an element of the list that \<^verbatim>\<open>fetch_all\<close>
  returns, the dual fetch still runs and sends four more requests, two of them for the
  second combination, whose answers (fatal errors as well) do not stop anything, and two
  independent-pair units follow the sentinel in the list.
\<close>

theorem fatal_error_counterexample:
  "fst (fetch_all (ex_env (always (Returns ex_bad_key))) (ex_world 10 Map.empty)
          [ex_round_trip, ex_round_trip2] [ex_prefer])
     = [FatalError ''Invalid API key. Your API key should be here: https://serpapi.com/manage-api-key'',
        IndependentOneWay (info_of ex_round_trip) [] [],
        IndependentOneWay (info_of ex_round_trip2) [] []]
   \<and> length (calls (snd (fetch_all (ex_env (always (Returns ex_bad_key))) (ex_world 10 Map.empty)
          [ex_round_trip, ex_round_trip2] [ex_prefer]))) = 5"
proof -
  define e where "e = ex_env (always (Returns ex_bad_key))"
  define s where "s = ex_world 10 Map.empty"
  define msg where "msg = ''Invalid API key. Your API key should be here: https://serpapi.com/manage-api-key''"
  have api: "\<And>sent ps. google_search e sent ps = Returns ex_bad_key"
    by (simp add: e_def ex_env_def always_def)
  have err: "error_of ex_bad_key = Some msg"
    by (simp add: error_of_def ex_bad_key_def msg_def)
  have err': "error_of ex_bad_key \<noteq> None" using err by simp
  have bad: "py_in ''invalid api key'' (lower msg)"
    by (simp add: msg_def lower_def lower_char_def ascii_uppercase_def ascii_lowercase_def
        latin1_uppercase_def latin1_lowercase_def)
  have quota: "\<And>c t. u_count (load_usage e (s\<lparr>calls := c, now := t\<rparr>)) < SERPAPI_MONTHLY_LIMIT"
    by (simp add: load_usage_def e_def s_def ex_env_def ex_world_def SERPAPI_MONTHLY_LIMIT_def)
  have empty: "\<And>c t. cache_file (s\<lparr>calls := c, now := t\<rparr>) = Map.empty"
    by (simp add: s_def ex_world_def)
  have quota0: "u_count (load_usage e s) < SERPAPI_MONTHLY_LIMIT"
    by (simp add: load_usage_def e_def s_def ex_env_def ex_world_def SERPAPI_MONTHLY_LIMIT_def)
  have empty0: "cache_file s = Map.empty"
    by (simp add: s_def ex_world_def)
  have sc: "s\<lparr>calls := calls s @ [build_params e ex_round_trip]\<rparr>
              = s\<lparr>calls := [build_params e ex_round_trip], now := 1000\<rparr>"
    by (simp add: s_def ex_world_def)
  have fc: "fetch_combination e s ex_round_trip
              = (FatalError msg, s\<lparr>calls := [build_params e ex_round_trip], now := 1000\<rparr>)"
    using fetch_combination_fatal [where combo = ex_round_trip,
        OF quota0 cache_lookup_empty [OF empty0] api err bad]
    unfolding sc .
  have fatal: "is_fatal (FatalError msg)"
    by (simp add: is_fatal_def msg_def)
  have main: "fetch_loop e (length [ex_round_trip, ex_round_trip2]) 1 [ex_round_trip, ex_round_trip2] ([], s)
                = ([FatalError msg], s\<lparr>calls := [build_params e ex_round_trip], now := 1000\<rparr>)"
    using fatal by (simp add: fetch_loop_step fc del: fetch_loop.simps)
  have rt: "round_trip_date ex_round_trip = Some ''2026-03-12''"
    "round_trip_date ex_round_trip2 = Some ''2026-03-13''"
    by (simp_all add: round_trip_date_def ex_round_trip_def ex_round_trip2_def ex_combo_def)
  have keys: "route_key ex_round_trip2 \<noteq> route_key ex_round_trip"
    by (simp add: route_key_def ex_round_trip_def ex_round_trip2_def ex_combo_def)
  have legs: "\<And>c t combo rd base. independent_legs e (s\<lparr>calls := c, now := t\<rparr>) combo rd base
           = (IndependentOneWay (info_of combo) [] [],
              s\<lparr>calls := c @ [outbound_one_way base, return_one_way e combo rd base], now := t\<rparr>)"
  proof -
    fix c t combo rd base
    from independent_legs_error [where e = e and s = "s\<lparr>calls := c, now := t\<rparr>"
        and results = ex_bad_key and combo = combo and rd = rd and base = base,
        OF empty quota api err']
    show "independent_legs e (s\<lparr>calls := c, now := t\<rparr>) combo rd base
           = (IndependentOneWay (info_of combo) [] [],
              s\<lparr>calls := c @ [outbound_one_way base, return_one_way e combo rd base], now := t\<rparr>)"
      by simp
  qed
  define base where "base = (\<lambda>combo. AList.delete ''exclude_airlines''
      (AList.update ''include_airlines'' (iata_of e ex_prefer) (build_params e combo)))"
  define sent where "sent =
      [build_params e ex_round_trip,
       outbound_one_way (base ex_round_trip),
       return_one_way e ex_round_trip ''2026-03-12'' (base ex_round_trip),
       outbound_one_way (base ex_round_trip2),
       return_one_way e ex_round_trip2 ''2026-03-13'' (base ex_round_trip2)]"
  have dual: "dual_loop e [ex_prefer] [ex_round_trip, ex_round_trip2] {}
                ([FatalError msg], s\<lparr>calls := [build_params e ex_round_trip], now := 1000\<rparr>)
            = ([FatalError msg, IndependentOneWay (info_of ex_round_trip) [] [],
                IndependentOneWay (info_of ex_round_trip2) [] []],
               s\<lparr>calls := sent, now := 2 * SERPAPI_CALL_DELAY + 1000\<rparr>)"
    using keys by (simp add: rt legs sleep_def sent_def base_def)
  have five: "length sent = 5" by (simp add: sent_def)
  have fa: "fetch_all e s [ex_round_trip, ex_round_trip2] [ex_prefer]
      = dual_loop e [ex_prefer] [ex_round_trip, ex_round_trip2] {}
          (fetch_loop e (length [ex_round_trip, ex_round_trip2]) 1 [ex_round_trip, ex_round_trip2] ([], s))"
    by (simp add: fetch_all_def Let_def ex_prefer_def del: fetch_loop.simps dual_loop.simps)
  have "fetch_all e s [ex_round_trip, ex_round_trip2] [ex_prefer]
       = ([FatalError msg, IndependentOneWay (info_of ex_round_trip) [] [],
           IndependentOneWay (info_of ex_round_trip2) [] []],
          s\<lparr>calls := sent, now := 2 * SERPAPI_CALL_DELAY + 1000\<rparr>)"
    unfolding fa main dual ..
  with five show ?thesis
    unfolding e_def s_def msg_def by simp
qed

text \<open>
  C2, amended. When the primary response for a combination (quota left, nothing fresh in
  the cache) carries an error whose text contains \<^verbatim>\<open>invalid api key\<close>, letter case
  ignored, and no post-filter is an airline preference, \<^verbatim>\<open>fetch_all\<close> stops at once:
  it returns the responses gathered before followed by the sentinel
  \<^verbatim>\<open>{"__fatal_error__": text}\<close> as the last element, which the caller tells from the
  others by that key; the world is the one right after the fatal request, whatever
  combinations come after.
\<close>

theorem fatal_error_halts:
  assumes "fetch_loop e (length (pre @ combo # post)) 1 pre ([], s) = (rs, s1)"
    and "\<forall>r \<in> set rs. \<not> is_fatal r"
    and "u_count (load_usage e s1) < SERPAPI_MONTHLY_LIMIT"
    and "cache_lookup e s1 (build_params e combo) = None"
    and "google_search e (calls s1) (build_params e combo) = Returns results"
    and "error_of results = Some err"
    and "py_in ''invalid api key'' (lower err)"
    and "filter (\<lambda>f. filter_type f = at_least_one_leg_airline) pfs = []"
  shows "fetch_all e s (pre @ combo # post) pfs
           = (rs @ [FatalError err], s1\<lparr>calls := calls s1 @ [build_params e combo]\<rparr>)
         \<and> is_fatal (FatalError err)"
proof -
  let ?n = "length (pre @ combo # post)"
  have fatal: "is_fatal (FatalError err)"
    using error_of_nonempty [OF assms(6)] by (simp add: is_fatal_def)
  have fc: "fetch_combination e s1 combo
              = (FatalError err, s1\<lparr>calls := calls s1 @ [build_params e combo]\<rparr>)"
    by (rule fetch_combination_fatal [OF assms(3-7)])
  have pre: "fetch_loop e ?n 1 pre ([], s) = ([] @ rs, s1)"
    using assms(1) by simp
  have nf: "list_all (\<lambda>r. \<not> is_fatal r) rs"
    using assms(2) by (simp add: list_all_iff)
  have "fetch_loop e ?n 1 (pre @ combo # post) ([], s)
          = fetch_loop e ?n (1 + length pre) (combo # post) ([] @ rs, s1)"
    by (rule fetch_loop_append [OF pre nf])
  also have "\<dots> = (rs @ [FatalError err], s1\<lparr>calls := calls s1 @ [build_params e combo]\<rparr>)"
    using fatal by (simp add: fetch_loop_step fc del: fetch_loop.simps)
  finally have "fetch_all e s (pre @ combo # post) pfs
           = (rs @ [FatalError err], s1\<lparr>calls := calls s1 @ [build_params e combo]\<rparr>)"
    by (simp only: fetch_all_main_only [OF assms(8)])
  with fatal show ?thesis by (rule_tac conjI)
qed

theorem fatal_error_halts_witness:
  "fetch_all (ex_env (always (Returns ex_bad_key))) (ex_world 10 Map.empty)
     [ex_round_trip, ex_round_trip2] []
   = ([FatalError ''Invalid API key. Your API key should be here: https://serpapi.com/manage-api-key''],
      (ex_world 10 Map.empty)
        \<lparr>calls := [build_params (ex_env (always (Returns ex_bad_key))) ex_round_trip]\<rparr>)"
proof -
  define e where "e = ex_env (always (Returns ex_bad_key))"
  define s where "s = ex_world 10 Map.empty"
  define msg where "msg = ''Invalid API key. Your API key should be here: https://serpapi.com/manage-api-key''"
  have h1: "fetch_loop e (length ([] @ ex_round_trip # [ex_round_trip2])) 1 [] ([], s) = ([], s)"
    by simp
  have h2: "\<forall>r \<in> set []. \<not> is_fatal r" by simp
  have h3: "u_count (load_usage e s) < SERPAPI_MONTHLY_LIMIT"
    by (simp add: load_usage_def e_def s_def ex_env_def ex_world_def SERPAPI_MONTHLY_LIMIT_def)
  have h4: "cache_lookup e s (build_params e ex_round_trip) = None"
    by (rule cache_lookup_empty) (simp add: s_def ex_world_def)
  have h5: "google_search e (calls s) (build_params e ex_round_trip) = Returns ex_bad_key"
    by (simp add: e_def ex_env_def always_def)
  have h6: "error_of ex_bad_key = Some msg"
    by (simp add: error_of_def ex_bad_key_def msg_def)
  have h7: "py_in ''invalid api key'' (lower msg)"
    by (simp add: msg_def lower_def lower_char_def ascii_uppercase_def ascii_lowercase_def
        latin1_uppercase_def latin1_lowercase_def)
  have h8: "filter (\<lambda>f. filter_type f = at_least_one_leg_airline) [] = []" by simp
  have c: "calls s = []" by (simp add: s_def ex_world_def)
  from fatal_error_halts [OF h1 h2 h3 h4 h5 h6 h7 h8]
  show ?thesis
    unfolding e_def s_def msg_def using c [unfolded s_def] by simp
qed


end
